theory Spec2Isabelle
  imports
    Complex_Main
    "HOL-Library.Word"
    "HOL-Library.List_Lexorder"
    "HOL-Library.Char_ord"
begin

section \<open>The server process of the key-value store (src/kvs/server.cpp)\<close>

text \<open>
  The development embeds the two functions of \<^verbatim>\<open>server.cpp\<close>: \<^verbatim>\<open>main\<close>, which picks
  the storage tier and starts the worker threads, and \<^verbatim>\<open>run\<close>, the event loop of one
  worker thread.  Everything \<^verbatim>\<open>server.cpp\<close> calls but does not define (the request
  handlers, the hash-ring utility, the message transport, the protobuf records) lives in
  headers outside this file; such a helper is a field of the record \<open>externals\<close> below, or,
  where a property depends on what the helper does, a definition marked as modelled from
  the specification.
\<close>

subsection \<open>Basic types\<close>

type_synonym Address = string
type_synonym Key = string

text \<open>
  \<^verbatim>\<open>Tier\<close> is an enumeration declared outside \<^verbatim>\<open>server.cpp\<close>, which names the
  enumerators \<^verbatim>\<open>Tier::MEMORY\<close> and \<^verbatim>\<open>Tier::DISK\<close> and has an \<^verbatim>\<open>else\<close> branch for
  any other value; \<open>OtherTier\<close> stands for those.
\<close>

datatype Tier = MEMORY | DISK | OtherTier nat

text \<open>
  The six lattice types registered in \<^verbatim>\<open>serializers\<close> (lines 231-236); \<open>OtherLattice\<close>
  stands for any further value of the enumeration, which is declared outside
  \<^verbatim>\<open>server.cpp\<close>.
\<close>

datatype LatticeType =
  LWW | SET | ORDERED_SET | SINGLE_CAUSAL | MULTI_CAUSAL | PRIORITY | OtherLattice nat

text \<open>
  How the process can end other than by running on: \<open>Exit n\<close> is \<^verbatim>\<open>exit(n)\<close> or
  \<^verbatim>\<open>return n\<close> from \<^verbatim>\<open>main\<close>; \<open>OutOfRange\<close> is \<^verbatim>\<open>operator[]\<close> of a \<^verbatim>\<open>std::vector\<close>
  past its end and \<open>NullCall\<close> a member call through a null \<^verbatim>\<open>Serializer*\<close> (both
  undefined behaviour); \<open>Terminate\<close> is \<^verbatim>\<open>std::terminate\<close>.
\<close>

datatype halt = Exit nat | OutOfRange | NullCall | Terminate

subsection \<open>\<^verbatim>\<open>main\<close>: choosing the tier (lines 716-734)\<close>

text \<open>
  A C string is the list of its characters before the terminating NUL; reading past the
  end of the list reads the NUL.  \<^verbatim>\<open>strncmp\<close> compares at most \<open>n\<close> characters as
  unsigned bytes and stops after a NUL.
\<close>

definition c_char :: "string \<Rightarrow> nat" where
  "c_char s = (case s of [] \<Rightarrow> 0 | c # _ \<Rightarrow> of_char c)"

fun strncmp :: "string \<Rightarrow> string \<Rightarrow> nat \<Rightarrow> int" where
  "strncmp s1 s2 0 = 0"
| "strncmp s1 s2 (Suc n) =
     (if c_char s1 \<noteq> c_char s2 then int (c_char s1) - int (c_char s2)
      else if c_char s1 = 0 then 0
      else strncmp (tl s1) (tl s2) n)"

text \<open>
  \<open>select_tier stype\<close> is the block that reads the environment variable
  \<^verbatim>\<open>SERVER_TYPE\<close>: \<open>stype\<close> is the result of \<^verbatim>\<open>getenv\<close> (\<open>None\<close> for a null pointer),
  the result is the value stored in \<^verbatim>\<open>kSelfTier\<close>, or the status \<^verbatim>\<open>main\<close> returns.
  The lines written to \<^verbatim>\<open>std::cout\<close> are not part of the model.
\<close>

definition select_tier :: "string option \<Rightarrow> halt + Tier" where
  "select_tier stype =
     (case stype of
        Some s \<Rightarrow>
          if strncmp s ''memory'' 6 = 0 then Inr MEMORY
          else if strncmp s ''ebs'' 3 = 0 then Inr DISK
          else Inl (Exit 1)
      | None \<Rightarrow> Inr MEMORY)"

subsection \<open>\<^verbatim>\<open>run\<close>: creating the serializers (lines 190-236)\<close>

text \<open>
  Modelled from the spec: the \<^verbatim>\<open>Serializer\<close> classes are declared outside
  \<^verbatim>\<open>server.cpp\<close>.  The specification describes a backend as a store from keys to lattice
  values with \<open>get\<close>, \<open>put\<close> and \<open>remove\<close>; a backend is a map from keys to values of an
  unspecified type \<open>'v\<close>, and \<open>remove\<close> deletes the key.
\<close>

type_synonym 'v Serializer = "Key \<rightharpoonup> 'v"

definition serializer_remove :: "Key \<Rightarrow> 'v Serializer \<Rightarrow> 'v Serializer" where
  "serializer_remove k s = s(k := None)"

text \<open>
  \<^verbatim>\<open>SerializerMap\<close> maps a lattice type to a \<^verbatim>\<open>Serializer*\<close>; a type with no entry, or
  with the null pointer \<^verbatim>\<open>operator[]\<close> inserts, is \<open>None\<close>.
\<close>

type_synonym 'v SerializerMap = "LatticeType \<rightharpoonup> 'v Serializer"

text \<open>
  The memory tier starts from six empty in-memory stores.  The disk tier opens the
  stores of this thread on disk, whose contents \<open>disk\<close> are whatever an earlier run left.
  Any other tier ends the process with status 1.
\<close>

definition create_serializers ::
  "Tier \<Rightarrow> (LatticeType \<Rightarrow> 'v Serializer) \<Rightarrow> halt + 'v SerializerMap" where
  "create_serializers kSelfTier disk =
     (if kSelfTier = MEMORY then
        Inr [LWW \<mapsto> Map.empty, SET \<mapsto> Map.empty, ORDERED_SET \<mapsto> Map.empty,
             SINGLE_CAUSAL \<mapsto> Map.empty, MULTI_CAUSAL \<mapsto> Map.empty,
             PRIORITY \<mapsto> Map.empty]
      else if kSelfTier = DISK then
        Inr [LWW \<mapsto> disk LWW, SET \<mapsto> disk SET, ORDERED_SET \<mapsto> disk ORDERED_SET,
             SINGLE_CAUSAL \<mapsto> disk SINGLE_CAUSAL, MULTI_CAUSAL \<mapsto> disk MULTI_CAUSAL,
             PRIORITY \<mapsto> disk PRIORITY]
      else Inl (Exit 1))"

subsection \<open>\<^verbatim>\<open>main\<close>: starting and joining the threads (lines 710-798)\<close>

text \<open>
  Of the YAML configuration only the two thread counts decide what \<^verbatim>\<open>main\<close> does;
  \<open>threads_default\<close> is the \<^verbatim>\<open>thread_number_\<close> of a default-constructed
  \<^verbatim>\<open>TierMetadata\<close>, which \<^verbatim>\<open>kTierMetadata[kSelfTier]\<close> yields for a tier that was never
  stored.
\<close>

record conf =
  threads_memory :: nat
  threads_ebs :: nat
  threads_default :: nat

definition thread_number :: "conf \<Rightarrow> Tier \<Rightarrow> nat" where
  "thread_number c t =
     (case t of MEMORY \<Rightarrow> threads_memory c | DISK \<Rightarrow> threads_ebs c
      | OtherTier _ \<Rightarrow> threads_default c)"

text \<open>A \<^verbatim>\<open>std::thread\<close> object: the thread id it was started with, and whether it is joinable.\<close>

record worker =
  worker_tid :: nat
  joinable :: bool

text \<open>
  The threads pushed onto \<^verbatim>\<open>worker_threads\<close>:
  \<^verbatim>\<open>for (thread_id = 1; thread_id < kThreadNum; thread_id++) push_back(...)\<close>.
\<close>

definition spawn_workers :: "nat \<Rightarrow> worker list" where
  "spawn_workers kThreadNum =
     map (\<lambda>i. \<lparr>worker_tid = i, joinable = True\<rparr>) [1..<kThreadNum]"

text \<open>
  The joining loop \<^verbatim>\<open>for (tid = 1; tid < kThreadNum; tid++) worker_threads[tid].join()\<close>,
  over the values \<open>tids\<close> that \<^verbatim>\<open>tid\<close> takes.  An index past the end of the vector is
  undefined behaviour; \<^verbatim>\<open>join\<close> on a thread that is not joinable throws, and nothing
  catches it.  \<^verbatim>\<open>join\<close> waits for the thread's \<^verbatim>\<open>run\<close> to return.
\<close>

fun join_workers :: "nat list \<Rightarrow> worker list \<Rightarrow> halt + worker list" where
  "join_workers [] ws = Inr ws"
| "join_workers (tid # tids) ws =
     (if \<not> tid < length ws then Inl OutOfRange
      else if \<not> joinable (ws ! tid) then Inl Terminate
      else join_workers tids (ws[tid := (ws ! tid)\<lparr>joinable := False\<rparr>]))"

text \<open>
  \<open>main argc stype c disk\<close> follows \<^verbatim>\<open>main\<close> in an execution in which every event
  loop that is entered ends by a self-depart message, so that the call \<^verbatim>\<open>run(0, ...)\<close>
  returns and every \<^verbatim>\<open>join\<close> comes back.  Leaving \<^verbatim>\<open>main\<close> destroys
  \<^verbatim>\<open>worker_threads\<close>; destroying a thread that is still joinable calls
  \<^verbatim>\<open>std::terminate\<close>.
\<close>

definition main ::
  "nat \<Rightarrow> string option \<Rightarrow> conf \<Rightarrow> (LatticeType \<Rightarrow> 'v Serializer) \<Rightarrow> halt" where
  "main argc stype c disk =
     (if argc \<noteq> 1 then Exit 1
      else case select_tier stype of
        Inl h \<Rightarrow> h
      | Inr kSelfTier \<Rightarrow>
          let kThreadNum = thread_number c kSelfTier;
              worker_threads = spawn_workers kThreadNum
          in case create_serializers kSelfTier disk of
               Inl h \<Rightarrow> h
             | Inr _ \<Rightarrow>
                 (case join_workers [1..<kThreadNum] worker_threads of
                    Inl h \<Rightarrow> h
                  | Inr ws \<Rightarrow> if list_ex joinable ws then Terminate else Exit 0))"

section \<open>The event loop of a worker thread (\<^verbatim>\<open>run\<close>, lines 47-708)\<close>

text \<open>
  Before its loop, \<^verbatim>\<open>run\<close> joins the cluster and fills its variables (lines 47-305);
  apart from the creation of the serializers above, that part is not modelled.  The loop
  is modelled from an arbitrary state of the variables, which also covers
  \<^verbatim>\<open>access_count\<close>, declared without an initial value.
\<close>

subsection \<open>Ordered containers\<close>

text \<open>
  A \<^verbatim>\<open>std::set\<close> is the list of its elements in ascending order, without repetition; a
  \<^verbatim>\<open>std::multiset\<close> is the ascending list of its elements, with repetition; a
  \<^verbatim>\<open>std::map\<close> is the list of its entries in ascending order of their keys, which are
  distinct.  A range-\<^verbatim>\<open>for\<close> loop visits the list from left to right.  Strings compare
  as \<^verbatim>\<open>std::string\<close> does, byte by byte.
\<close>

fun set_insert :: "'a::linorder \<Rightarrow> 'a list \<Rightarrow> 'a list" where
  "set_insert x [] = [x]"
| "set_insert x (y # ys) =
     (if x < y then x # y # ys else if x = y then y # ys else y # set_insert x ys)"

definition set_erase :: "'a \<Rightarrow> 'a list \<Rightarrow> 'a list" where
  "set_erase x xs = filter (\<lambda>y. y \<noteq> x) xs"

definition map_find :: "'k \<Rightarrow> ('k \<times> 'v) list \<Rightarrow> 'v option" where
  "map_find k m = map_of m k"

fun map_put :: "'k::linorder \<Rightarrow> 'v \<Rightarrow> ('k \<times> 'v) list \<Rightarrow> ('k \<times> 'v) list" where
  "map_put k v [] = [(k, v)]"
| "map_put k v ((k', v') # m) =
     (if k < k' then (k, v) # (k', v') # m
      else if k = k' then (k, v) # m
      else (k', v') # map_put k v m)"

definition map_erase :: "'k \<Rightarrow> ('k \<times> 'v) list \<Rightarrow> ('k \<times> 'v) list" where
  "map_erase k m = filter (\<lambda>p. fst p \<noteq> k) m"

text \<open>
  \<^verbatim>\<open>AddressKeysetMap\<close> maps an address to a \<^verbatim>\<open>set<Key>\<close>;
  \<open>stage a k m\<close> is \<^verbatim>\<open>m[a].insert(k)\<close>.
\<close>

type_synonym AddressKeysetMap = "(Address \<times> Key list) list"

definition stage :: "Address \<Rightarrow> Key \<Rightarrow> AddressKeysetMap \<Rightarrow> AddressKeysetMap" where
  "stage a k m =
     map_put a (set_insert k (case map_find a m of None \<Rightarrow> [] | Some ks \<Rightarrow> ks)) m"

text \<open>The keys staged under an address.\<close>

definition staged :: "AddressKeysetMap \<Rightarrow> Address \<Rightarrow> Key set" where
  "staged m a = (case map_find a m of None \<Rightarrow> {} | Some ks \<Rightarrow> set ks)"

subsection \<open>Time\<close>

text \<open>
  A \<^verbatim>\<open>TimePoint\<close> of \<^verbatim>\<open>std::chrono::system_clock\<close> counts nanoseconds (the period of
  libstdc++).  \<^verbatim>\<open>duration_cast\<close> to a coarser unit divides by a positive number
  \<open>n\<close> of ticks and truncates towards zero.
\<close>

type_synonym TimePoint = int

definition trunc_div :: "int \<Rightarrow> int \<Rightarrow> int" where
  "trunc_div d n = (if d < 0 then - ((- d) div n) else d div n)"

definition as_seconds :: "int \<Rightarrow> int" where
  "as_seconds d = trunc_div d 1000000000"

definition as_microseconds :: "int \<Rightarrow> int" where
  "as_microseconds d = trunc_div d 1000"

definition kServerReportThreshold :: int where
  "kServerReportThreshold = 15"

definition kKeyMonitoringThreshold :: int where
  "kKeyMonitoringThreshold = 60"

subsection \<open>Records of the data model\<close>

text \<open>
  \<^verbatim>\<open>KeyProperty\<close>: the byte size of the stored value and its lattice type (fields
  \<^verbatim>\<open>size_\<close> and \<^verbatim>\<open>type_\<close>, here \<open>prop_size\<close> and \<open>prop_type\<close>).  The struct is
  declared outside \<^verbatim>\<open>server.cpp\<close>; the size is taken to be an \<^verbatim>\<open>unsigned\<close> of 32
  bits, as the other counters of \<^verbatim>\<open>run\<close> are.
\<close>

record KeyProperty =
  prop_size :: "32 word"
  prop_type :: LatticeType

record ServerThread =
  public_ip :: Address
  private_ip :: Address
  tid :: nat

datatype MetadataType = server_stats | key_access | key_size

datatype RequestType = GET | PUT

text \<open>
  The protobuf records the reporter fills in.  \<open>'d\<close> is the type \<^verbatim>\<open>double\<close>, which is
  left uninterpreted.
\<close>

record 'd ServerThreadStatistics =
  stat_storage_consumption :: "64 word"
  stat_occupancy :: 'd
  stat_epoch :: "32 word"
  stat_access_count :: "32 word"

datatype 'd report =
  Statistics "'d ServerThreadStatistics"
  | KeyAccessData "(Key \<times> nat) list"
  | KeySizeData "(Key \<times> 32 word) list"

text \<open>
  A tuple of a \<^verbatim>\<open>KeyRequest\<close> as \<^verbatim>\<open>prepare_put_tuple(req, key, type, payload)\<close> adds
  it; the payload \<^verbatim>\<open>serialize(ts, body)\<close> of a last-writer-wins value is the pair of the
  timestamp and the body.  The wire encoding of protobuf is not modelled: a message is
  the record it encodes.
\<close>

record 'd KeyTuple =
  tuple_key :: Key
  tuple_lattice_type :: LatticeType
  tuple_timestamp :: nat
  tuple_body :: "'d report"

record 'd KeyRequest =
  request_type :: RequestType
  request_tuples :: "'d KeyTuple list"

text \<open>
  What is pushed to a socket: a key request, a gossip batch with the values read from
  the serializers, or a plain string.
\<close>

datatype ('v, 'd) message =
  RequestMsg "'d KeyRequest"
  | GossipMsg "(Key \<times> LatticeType \<times> 'v) list"
  | StringMsg string

datatype 'd log_entry =
  InfoEventOccupancy nat 'd
  | InfoOccupancy 'd
  | ErrorMissingReplication
  | OtherEntry string

subsection \<open>The state of a thread\<close>

text \<open>
  The variables of \<^verbatim>\<open>run\<close> that the handlers and helpers receive by reference.
  \<open>others\<close> holds the hash rings, \<^verbatim>\<open>key_replication_map\<close>, the pending queues,
  \<^verbatim>\<open>extant_caches\<close>, \<^verbatim>\<open>cache_ip_to_keys\<close> and \<^verbatim>\<open>rid\<close>, which \<^verbatim>\<open>run\<close> only hands on
  and whose types are declared outside \<^verbatim>\<open>server.cpp\<close>.  \<open>outbox\<close> is what has been
  pushed through \<^verbatim>\<open>pushers\<close>, \<open>logged\<close> what has been written to the log.
\<close>

record ('v, 'd, 'h) node =
  seed :: "32 word"
  join_gossip_map :: AddressKeysetMap
  join_remove_set :: "Key list"
  key_to_cache_ips :: "(Key \<times> Address list) list"
  stored_key_map :: "(Key \<times> KeyProperty) list"
  serializers :: "'v SerializerMap"
  local_changeset :: "Key list"
  key_access_tracker :: "(Key \<times> TimePoint list) list"
  access_count :: "32 word"
  others :: 'h
  outbox :: "(Address \<times> ('v, 'd) message) list"
  logged :: "'d log_entry list"

subsection \<open>Sending gossip\<close>

text \<open>
  Modelled from the spec: \<^verbatim>\<open>send_gossip\<close> is defined outside \<^verbatim>\<open>server.cpp\<close>.  The
  specification has it send one batched message per endpoint containing the current
  lattice values of the staged keys, read from the serializer at send time.  A staged key
  that has no stored value contributes nothing to the message.
\<close>

definition gossip_values ::
  "(Key \<times> KeyProperty) list \<Rightarrow> 'v SerializerMap \<Rightarrow> Key list \<Rightarrow> (Key \<times> LatticeType \<times> 'v) list" where
  "gossip_values skm sers ks =
     List.map_filter
       (\<lambda>k. case map_find k skm of
               None \<Rightarrow> None
             | Some p \<Rightarrow>
                 (case sers (prop_type p) of
                    None \<Rightarrow> None
                  | Some s \<Rightarrow> (case s k of None \<Rightarrow> None | Some v \<Rightarrow> Some (k, prop_type p, v))))
       ks"

definition gossip_messages ::
  "AddressKeysetMap \<Rightarrow> ('v, 'd, 'h) node \<Rightarrow> (Address \<times> ('v, 'd) message) list" where
  "gossip_messages m nd =
     map (\<lambda>(a, ks). (a, GossipMsg (gossip_values (stored_key_map nd) (serializers nd) ks))) m"

definition send_gossip :: "AddressKeysetMap \<Rightarrow> ('v, 'd, 'h) node \<Rightarrow> ('v, 'd, 'h) node" where
  "send_gossip m nd = nd\<lparr>outbox := outbox nd @ gossip_messages m nd\<rparr>"

subsection \<open>Redistributing data after a node joins (lines 661-706)\<close>

text \<open>
  The inner loop over the copy \<open>key_set\<close> of one entry: each key is staged under the
  address and recorded in \<open>sent_keys\<close>; the loop breaks once \<open>sent_keys\<close> has reached
  \<open>T\<close>, the constant \<^verbatim>\<open>DATA_REDISTRIBUTE_THRESHOLD\<close>, whose value is set outside
  \<^verbatim>\<open>server.cpp\<close>.
\<close>

fun stage_keys ::
  "nat \<Rightarrow> Address \<Rightarrow> Key list \<Rightarrow> AddressKeysetMap \<Rightarrow> Key list \<Rightarrow> AddressKeysetMap \<times> Key list" where
  "stage_keys T address [] m sent_keys = (m, sent_keys)"
| "stage_keys T address (key # keys) m sent_keys =
     (let m' = stage address key m;
          sent_keys' = set_insert key sent_keys
      in if length sent_keys' \<ge> T then (m', sent_keys')
         else stage_keys T address keys m' sent_keys')"

text \<open>
  The outer loop over \<^verbatim>\<open>join_gossip_map\<close>.  \<^verbatim>\<open>set<Key> key_set = join_pair.second\<close>
  copies the key set of the entry; the sent keys are erased from that copy, and the
  address is put into \<open>remove_address_set\<close> when the copy has become empty.  The entry
  of the map itself is not written.
\<close>

fun drain_entries ::
  "nat \<Rightarrow> AddressKeysetMap \<Rightarrow> AddressKeysetMap \<Rightarrow> Address list \<Rightarrow> AddressKeysetMap \<times> Address list" where
  "drain_entries T [] m remove_address_set = (m, remove_address_set)"
| "drain_entries T ((address, key_set) # rest) m remove_address_set =
     (let (m', sent_keys) = stage_keys T address key_set m [];
          key_set' = fold set_erase sent_keys key_set
      in drain_entries T rest m'
           (if length key_set' = 0 then set_insert address remove_address_set
            else remove_address_set))"

text \<open>
  The loop over \<^verbatim>\<open>join_remove_set\<close>:
  \<^verbatim>\<open>serializers[stored_key_map[key].type_]->remove(key); stored_key_map.erase(key)\<close>.
  For a key that is not stored, \<^verbatim>\<open>stored_key_map[key]\<close> is a value-initialised
  \<^verbatim>\<open>KeyProperty\<close>, here \<open>dflt\<close>; a type without a serializer gives a null pointer, and
  the call through it is undefined.
\<close>

fun remove_keys ::
  "KeyProperty \<Rightarrow> Key list \<Rightarrow> (Key \<times> KeyProperty) list \<Rightarrow> 'v SerializerMap \<Rightarrow>
     halt + ((Key \<times> KeyProperty) list \<times> 'v SerializerMap)" where
  "remove_keys dflt [] skm sers = Inr (skm, sers)"
| "remove_keys dflt (key # keys) skm sers =
     (let p = (case map_find key skm of None \<Rightarrow> dflt | Some p \<Rightarrow> p)
      in case sers (prop_type p) of
           None \<Rightarrow> Inl NullCall
         | Some s \<Rightarrow>
             remove_keys dflt keys (map_erase key skm)
               (sers(prop_type p \<mapsto> serializer_remove key s)))"

text \<open>The batch that the outer loop stages for a given \<^verbatim>\<open>join_gossip_map\<close>.\<close>

definition join_batch :: "nat \<Rightarrow> AddressKeysetMap \<Rightarrow> AddressKeysetMap" where
  "join_batch T jgm = fst (drain_entries T jgm [] [])"

text \<open>
  The whole block.  \<open>T\<close> is \<^verbatim>\<open>DATA_REDISTRIBUTE_THRESHOLD\<close> and \<open>dflt\<close> the
  value-initialised \<^verbatim>\<open>KeyProperty\<close>.
\<close>

definition redistribute ::
  "nat \<Rightarrow> KeyProperty \<Rightarrow> ('v, 'd, 'h) node \<Rightarrow> halt + ('v, 'd, 'h) node" where
  "redistribute T dflt nd =
     (if length (join_gossip_map nd) \<noteq> 0 then
        let (addr_keyset_map, remove_address_set) = drain_entries T (join_gossip_map nd) [] [];
            nd1 = nd\<lparr>join_gossip_map := fold map_erase remove_address_set (join_gossip_map nd)\<rparr>;
            nd2 = send_gossip addr_keyset_map nd1
        in if length (join_gossip_map nd2) = 0 then
             (case remove_keys dflt (join_remove_set nd2) (stored_key_map nd2) (serializers nd2) of
                Inl h \<Rightarrow> Inl h
              | Inr (skm, sers) \<Rightarrow>
                  Inr (nd2\<lparr>stored_key_map := skm, serializers := sers, join_remove_set := []\<rparr>))
           else Inr nd2
      else Inr nd)"

subsection \<open>What \<^verbatim>\<open>run\<close> uses from outside \<^verbatim>\<open>server.cpp\<close>\<close>

text \<open>
  What a helper of the hash-ring utility can reach through its reference parameters:
  the rings and \<^verbatim>\<open>key_replication_map\<close> (in \<open>others\<close>), \<^verbatim>\<open>pushers\<close> and \<^verbatim>\<open>seed\<close>.
\<close>

type_synonym ('v, 'd, 'h) ring_env =
  "'h \<times> (Address \<times> ('v, 'd) message) list \<times> 32 word"

text \<open>
  The handlers take the received string and the variables of the thread.
  \<open>get_responsible_threads\<close> returns the thread list and the flag \<^verbatim>\<open>succeed\<close>.
  \<open>responsible_list\<close> is the responsible list of a key under the current rings and
  replication factors.  \<open>thread_eq\<close> is \<^verbatim>\<open>operator==\<close> of \<^verbatim>\<open>ServerThread\<close>.
  \<open>cache_update_connect_address ip\<close> is
  \<^verbatim>\<open>CacheThread(ip, 0).cache_update_connect_address()\<close>.  \<open>rand_r\<close> returns the random
  number and the new seed.  \<open>clock n\<close> is what the \<open>n\<close>-th call of
  \<^verbatim>\<open>system_clock::now()\<close> in \<^verbatim>\<open>run\<close> returns.  \<open>PERIOD\<close> (microseconds) and
  \<open>DATA_REDISTRIBUTE_THRESHOLD\<close> are constants, \<open>default_KeyProperty\<close> is a
  value-initialised \<^verbatim>\<open>KeyProperty\<close>.  The last five fields are the operations of
  \<^verbatim>\<open>double\<close>: conversion from an integer, multiplication, division, \<open>>\<close>, and the
  literal \<^verbatim>\<open>0.02\<close>.
\<close>

record ('v, 'd, 'h) externals =
  node_join_handler :: "string \<Rightarrow> ('v, 'd, 'h) node \<Rightarrow> ('v, 'd, 'h) node"
  node_depart_handler :: "string \<Rightarrow> ('v, 'd, 'h) node \<Rightarrow> ('v, 'd, 'h) node"
  self_depart_handler :: "string \<Rightarrow> ('v, 'd, 'h) node \<Rightarrow> ('v, 'd, 'h) node"
  user_request_handler :: "string \<Rightarrow> ('v, 'd, 'h) node \<Rightarrow> ('v, 'd, 'h) node"
  gossip_handler :: "string \<Rightarrow> ('v, 'd, 'h) node \<Rightarrow> ('v, 'd, 'h) node"
  replication_response_handler :: "string \<Rightarrow> ('v, 'd, 'h) node \<Rightarrow> ('v, 'd, 'h) node"
  replication_change_handler :: "string \<Rightarrow> ('v, 'd, 'h) node \<Rightarrow> ('v, 'd, 'h) node"
  cache_ip_response_handler :: "string \<Rightarrow> ('v, 'd, 'h) node \<Rightarrow> ('v, 'd, 'h) node"
  management_node_response_handler :: "string \<Rightarrow> ('v, 'd, 'h) node \<Rightarrow> ('v, 'd, 'h) node"
  get_responsible_threads ::
    "Key \<Rightarrow> ('v, 'd, 'h) ring_env \<Rightarrow> (ServerThread list \<times> bool) \<times> ('v, 'd, 'h) ring_env"
  get_responsible_threads_metadata :: "Key \<Rightarrow> 'h \<Rightarrow> ServerThread list \<times> 'h"
  responsible_list :: "'h \<Rightarrow> Key \<Rightarrow> ServerThread list"
  thread_eq :: "ServerThread \<Rightarrow> ServerThread \<Rightarrow> bool"
  gossip_connect_address :: "ServerThread \<Rightarrow> Address"
  key_request_connect_address :: "ServerThread \<Rightarrow> Address"
  cache_update_connect_address :: "Address \<Rightarrow> Address"
  management_node_response_connect_address :: "ServerThread \<Rightarrow> Address"
  get_func_nodes_req_address :: "Address \<Rightarrow> Address"
  get_metadata_key :: "ServerThread \<Rightarrow> Tier \<Rightarrow> nat \<Rightarrow> MetadataType \<Rightarrow> Key"
  rand_r :: "32 word \<Rightarrow> nat \<times> 32 word"
  clock :: "nat \<Rightarrow> TimePoint"
  PERIOD :: int
  DATA_REDISTRIBUTE_THRESHOLD :: nat
  default_KeyProperty :: KeyProperty
  d_of_int :: "int \<Rightarrow> 'd"
  d_mul :: "'d \<Rightarrow> 'd \<Rightarrow> 'd"
  d_div :: "'d \<Rightarrow> 'd \<Rightarrow> 'd"
  d_gt :: "'d \<Rightarrow> 'd \<Rightarrow> bool"
  d_0_02 :: 'd

subsection \<open>The local variables of the loop\<close>

text \<open>
  \<open>working_time_map\<close> is an array of ten counters; \<open>clock_reads\<close> counts the calls of
  \<^verbatim>\<open>system_clock::now()\<close> made so far.
\<close>

record loop_vars =
  gossip_start :: TimePoint
  gossip_end :: TimePoint
  report_start :: TimePoint
  report_end :: TimePoint
  working_time :: "64 word"
  working_time_map :: "64 word list"
  epoch :: "32 word"
  clock_reads :: nat

definition now :: "('v, 'd, 'h) externals \<Rightarrow> loop_vars \<Rightarrow> TimePoint \<times> loop_vars" where
  "now ext lv = (clock ext (clock_reads lv), lv\<lparr>clock_reads := Suc (clock_reads lv)\<rparr>)"

text \<open>
  \<^verbatim>\<open>working_time += time_elapsed; working_time_map[i] += time_elapsed\<close>, where
  \<^verbatim>\<open>time_elapsed\<close> is a signed count of microseconds added to unsigned 64-bit counters.
\<close>

definition add_working_time :: "nat \<Rightarrow> int \<Rightarrow> loop_vars \<Rightarrow> loop_vars" where
  "add_working_time i time_elapsed lv =
     lv\<lparr>working_time := working_time lv + word_of_int time_elapsed,
        working_time_map :=
          (if i < length (working_time_map lv)
           then (working_time_map lv)[i := working_time_map lv ! i + word_of_int time_elapsed]
           else working_time_map lv)\<rparr>"

text \<open>
  A handler call with its time measurement, as for each of the channels 0, 1 and 3 to 8
  (lines 312-449).
\<close>

definition timed ::
  "('v, 'd, 'h) externals \<Rightarrow> nat \<Rightarrow> (('v, 'd, 'h) node \<Rightarrow> ('v, 'd, 'h) node) \<Rightarrow>
     ('v, 'd, 'h) node \<times> loop_vars \<Rightarrow> ('v, 'd, 'h) node \<times> loop_vars" where
  "timed ext i handler st =
     (let (work_start, lv1) = now ext (snd st);
          nd' = handler (fst st);
          (finish, lv2) = now ext lv1;
          time_elapsed = as_microseconds (finish - work_start)
      in (nd', add_working_time i time_elapsed lv2))"

subsection \<open>Gossip of local changes (lines 451-500)\<close>

text \<open>The loop over the responsible threads of a key: every thread but \<open>wt\<close> is staged.\<close>

fun stage_threads ::
  "('v, 'd, 'h) externals \<Rightarrow> ServerThread \<Rightarrow> Key \<Rightarrow> ServerThread list \<Rightarrow>
     AddressKeysetMap \<Rightarrow> AddressKeysetMap" where
  "stage_threads ext wt key [] m = m"
| "stage_threads ext wt key (thread # threads) m =
     stage_threads ext wt key threads
       (if \<not> thread_eq ext thread wt then stage (gossip_connect_address ext thread) key m
        else m)"

text \<open>The loop over the caches that hold a key.\<close>

fun stage_caches ::
  "('v, 'd, 'h) externals \<Rightarrow> Key \<Rightarrow> Address list \<Rightarrow> AddressKeysetMap \<Rightarrow> AddressKeysetMap" where
  "stage_caches ext key [] m = m"
| "stage_caches ext key (cache_ip # cache_ips) m =
     stage_caches ext key cache_ips (stage (cache_update_connect_address ext cache_ip) key m)"

text \<open>What one key of the changeset adds to the batch, given the answer of the hash ring.\<close>

definition stage_key ::
  "('v, 'd, 'h) externals \<Rightarrow> ServerThread \<Rightarrow> (Key \<times> Address list) list \<Rightarrow> Key \<Rightarrow>
     ServerThread list \<times> bool \<Rightarrow> AddressKeysetMap \<Rightarrow> AddressKeysetMap" where
  "stage_key ext wt k2c key answer m =
     (let m1 = (if snd answer then stage_threads ext wt key (fst answer) m else m)
      in case map_find key k2c of
           None \<Rightarrow> m1
         | Some cache_ips \<Rightarrow> stage_caches ext key cache_ips m1)"

text \<open>
  The call of \<^verbatim>\<open>get_responsible_threads\<close> for one key, with what it leaves in the
  variables it has by reference, and the error logged when it did not succeed.
\<close>

definition resolve_key ::
  "('v, 'd, 'h) externals \<Rightarrow> Key \<Rightarrow> ('v, 'd, 'h) node \<Rightarrow>
     (ServerThread list \<times> bool) \<times> ('v, 'd, 'h) node" where
  "resolve_key ext key nd =
     (let (answer, (h, ob, sd)) =
            get_responsible_threads ext key (others nd, outbox nd, seed nd);
          nd1 = nd\<lparr>others := h, outbox := ob, seed := sd\<rparr>
      in (answer,
          if snd answer then nd1
          else nd1\<lparr>logged := logged nd1 @ [ErrorMissingReplication]\<rparr>))"

text \<open>The loop over \<^verbatim>\<open>local_changeset\<close>.\<close>

fun gossip_keys ::
  "('v, 'd, 'h) externals \<Rightarrow> ServerThread \<Rightarrow> Key list \<Rightarrow> ('v, 'd, 'h) node \<Rightarrow>
     AddressKeysetMap \<Rightarrow> ('v, 'd, 'h) node \<times> AddressKeysetMap" where
  "gossip_keys ext wt [] nd m = (nd, m)"
| "gossip_keys ext wt (key # keys) nd m =
     (let (answer, nd2) = resolve_key ext key nd
      in gossip_keys ext wt keys nd2 (stage_key ext wt (key_to_cache_ips nd2) key answer m))"

text \<open>
  The answers the hash ring gives during that loop, in the order of the calls: the key,
  the thread list and the flag \<^verbatim>\<open>succeed\<close>.  This is not a function of
  \<^verbatim>\<open>server.cpp\<close>; the properties of the loop are stated with it.
\<close>

fun resolutions ::
  "('v, 'd, 'h) externals \<Rightarrow> Key list \<Rightarrow> ('v, 'd, 'h) ring_env \<Rightarrow>
     (Key \<times> ServerThread list \<times> bool) list" where
  "resolutions ext [] env = []"
| "resolutions ext (key # keys) env =
     (let (answer, env') = get_responsible_threads ext key env
      in (key, fst answer, snd answer) # resolutions ext keys env')"

definition gossip_batch ::
  "('v, 'd, 'h) externals \<Rightarrow> ServerThread \<Rightarrow> ('v, 'd, 'h) node \<Rightarrow> AddressKeysetMap" where
  "gossip_batch ext wt nd = snd (gossip_keys ext wt (local_changeset nd) nd [])"

text \<open>The body of the gossip timer: \<^verbatim>\<open>if (local_changeset.size() > 0) { ... }\<close>.\<close>

definition gossip_tick ::
  "('v, 'd, 'h) externals \<Rightarrow> ServerThread \<Rightarrow> ('v, 'd, 'h) node \<Rightarrow> ('v, 'd, 'h) node" where
  "gossip_tick ext wt nd =
     (if length (local_changeset nd) > 0 then
        let (nd1, addr_keyset_map) = gossip_keys ext wt (local_changeset nd) nd []
        in (send_gossip addr_keyset_map nd1)\<lparr>local_changeset := []\<rparr>
      else nd)"

definition gossip_section ::
  "('v, 'd, 'h) externals \<Rightarrow> ServerThread \<Rightarrow> ('v, 'd, 'h) node \<times> loop_vars \<Rightarrow>
     ('v, 'd, 'h) node \<times> loop_vars" where
  "gossip_section ext wt st =
     (let (t, lv0) = now ext (snd st);
          lv1 = lv0\<lparr>gossip_end := t\<rparr>
      in if as_microseconds (gossip_end lv1 - gossip_start lv1) \<ge> PERIOD ext then
           let (work_start, lv2) = now ext lv1;
               nd' = gossip_tick ext wt (fst st);
               (t2, lv3) = now ext lv2;
               lv4 = lv3\<lparr>gossip_start := t2\<rparr>;
               (finish, lv5) = now ext lv4;
               time_elapsed = as_microseconds (finish - work_start)
           in (nd', add_working_time 9 time_elapsed lv5)
         else (fst st, lv1))"

subsection \<open>The periodic report (lines 502-659)\<close>

text \<open>The sum of the stored sizes, in an \<^verbatim>\<open>unsigned long long\<close>.\<close>

definition total_consumption :: "(Key \<times> KeyProperty) list \<Rightarrow> 64 word" where
  "total_consumption skm =
     fold (\<lambda>key_pair consumption. consumption + ucast (prop_size (snd key_pair))) skm 0"

text \<open>
  \<^verbatim>\<open>(double)time / ((double)duration * 1000000)\<close> for an unsigned 64-bit \<open>time\<close>.
\<close>

definition occupancy_of :: "('v, 'd, 'h) externals \<Rightarrow> 64 word \<Rightarrow> int \<Rightarrow> 'd" where
  "occupancy_of ext time duration =
     d_div ext (d_of_int ext (uint time))
       (d_mul ext (d_of_int ext duration) (d_of_int ext 1000000))"

text \<open>
  The loop over \<^verbatim>\<open>working_time_map\<close>; \<^verbatim>\<open>index\<close> is incremented only when a line is
  logged.
\<close>

fun log_event_occupancy ::
  "('v, 'd, 'h) externals \<Rightarrow> int \<Rightarrow> 64 word list \<Rightarrow> nat \<Rightarrow> 'd log_entry list \<Rightarrow>
     'd log_entry list" where
  "log_event_occupancy ext duration [] index lg = lg"
| "log_event_occupancy ext duration (time # rest) index lg =
     (let event_occupancy = occupancy_of ext time duration
      in if d_gt ext event_occupancy (d_0_02 ext)
         then log_event_occupancy ext duration rest (index + 1)
                (lg @ [InfoEventOccupancy index event_occupancy])
         else log_event_occupancy ext duration rest index lg)"

text \<open>
  The request built for a report: \<^verbatim>\<open>req.set_type(RequestType::PUT)\<close> and
  \<^verbatim>\<open>prepare_put_tuple(req, key, LatticeType::LWW, serialize(ts, body))\<close> on an empty
  request.
\<close>

definition put_request :: "Key \<Rightarrow> nat \<Rightarrow> 'd report \<Rightarrow> 'd KeyRequest" where
  "put_request key ts body =
     \<lparr>request_type = PUT,
      request_tuples =
        [\<lparr>tuple_key = key, tuple_lattice_type = LWW, tuple_timestamp = ts, tuple_body = body\<rparr>]\<rparr>"

text \<open>
  Sending a report (lines 553-562, 598-608 and 630-640): the responsible metadata threads
  are looked up on the memory-tier rings, and if there is one, the request goes to the
  thread at position \<^verbatim>\<open>rand_r(&seed) % threads.size()\<close>.
\<close>

definition send_report ::
  "('v, 'd, 'h) externals \<Rightarrow> Key \<Rightarrow> 'd KeyRequest \<Rightarrow> ('v, 'd, 'h) node \<Rightarrow> ('v, 'd, 'h) node" where
  "send_report ext key req nd =
     (let (threads, h) = get_responsible_threads_metadata ext key (others nd);
          nd1 = nd\<lparr>others := h\<rparr>
      in if length threads \<noteq> 0 then
           let (r, sd) = rand_r ext (seed nd1);
               target_address = key_request_connect_address ext (threads ! (r mod length threads))
           in nd1\<lparr>seed := sd, outbox := outbox nd1 @ [(target_address, RequestMsg req)]\<rparr>
         else nd1)"

text \<open>
  The statistics record (lines 539-543).  \<open>ep\<close> is \<^verbatim>\<open>epoch\<close> after its increment.
\<close>

definition server_statistics ::
  "('v, 'd, 'h) externals \<Rightarrow> int \<Rightarrow> 32 word \<Rightarrow> 64 word \<Rightarrow> ('v, 'd, 'h) node \<Rightarrow>
     'd ServerThreadStatistics" where
  "server_statistics ext duration ep wtime nd =
     \<lparr>stat_storage_consumption = total_consumption (stored_key_map nd) div 1000,
      stat_occupancy = occupancy_of ext wtime duration,
      stat_epoch = ep,
      stat_access_count = access_count nd\<rparr>"

text \<open>
  The garbage-collection loop over the copy \<open>access_times\<close> of one tracker entry
  (\<^verbatim>\<open>auto access_times = key_access_pair.second\<close>): at the first timestamp that is at
  least \<^verbatim>\<open>kKeyMonitoringThreshold\<close> seconds old, \<^verbatim>\<open>access_times.erase(time)\<close> removes
  every element equal to it and the loop breaks.  \<open>todo\<close> is what the loop has yet to
  visit.
\<close>

fun garbage_collect :: "TimePoint \<Rightarrow> TimePoint list \<Rightarrow> TimePoint list \<Rightarrow> TimePoint list" where
  "garbage_collect current_time [] access_times = access_times"
| "garbage_collect current_time (time # todo) access_times =
     (if as_seconds (current_time - time) \<ge> kKeyMonitoringThreshold
      then set_erase time access_times
      else garbage_collect current_time todo access_times)"

text \<open>The loop over \<^verbatim>\<open>key_access_tracker\<close>, which fills \<^verbatim>\<open>KeyAccessData\<close>.\<close>

definition key_access_counts ::
  "TimePoint \<Rightarrow> (Key \<times> TimePoint list) list \<Rightarrow> (Key \<times> nat) list" where
  "key_access_counts current_time tracker =
     map (\<lambda>(key, access_times).
            (key, length (garbage_collect current_time access_times access_times)))
       tracker"

text \<open>
  Modelled from the spec: \<^verbatim>\<open>is_primary_replica\<close> is defined outside \<^verbatim>\<open>server.cpp\<close>.
  The specification calls a thread the primary replica of a key when it is the first
  thread in the responsible list of the key.
\<close>

definition is_primary_replica ::
  "('v, 'd, 'h) externals \<Rightarrow> 'h \<Rightarrow> ServerThread \<Rightarrow> Key \<Rightarrow> bool" where
  "is_primary_replica ext h wt key =
     (case responsible_list ext h key of [] \<Rightarrow> False | t # _ \<Rightarrow> thread_eq ext t wt)"

text \<open>The loop over \<^verbatim>\<open>stored_key_map\<close>, which fills \<^verbatim>\<open>KeySizeData\<close>.\<close>

fun primary_key_size ::
  "('v, 'd, 'h) externals \<Rightarrow> 'h \<Rightarrow> ServerThread \<Rightarrow> (Key \<times> KeyProperty) list \<Rightarrow>
     (Key \<times> 32 word) list" where
  "primary_key_size ext h wt [] = []"
| "primary_key_size ext h wt (key_pair # rest) =
     (if is_primary_replica ext h wt (fst key_pair)
      then (fst key_pair, prop_size (snd key_pair)) # primary_key_size ext h wt rest
      else primary_key_size ext h wt rest)"

text \<open>
  The body of \<^verbatim>\<open>if (duration >= kServerReportThreshold)\<close>.  \<open>ts\<close> is the result of
  \<^verbatim>\<open>generate_timestamp(wt.tid())\<close>.
\<close>

definition report ::
  "('v, 'd, 'h) externals \<Rightarrow> Tier \<Rightarrow> ServerThread \<Rightarrow> Address \<Rightarrow> nat \<Rightarrow> int \<Rightarrow>
     ('v, 'd, 'h) node \<times> loop_vars \<Rightarrow> ('v, 'd, 'h) node \<times> loop_vars" where
  "report ext kSelfTier wt management_ip ts duration st =
     (let nd = fst st;
          lv1 = (snd st)\<lparr>epoch := epoch (snd st) + 1\<rparr>;
          nd1 = nd\<lparr>logged :=
                  log_event_occupancy ext duration (working_time_map lv1) 0 (logged nd)\<rparr>;
          occupancy = occupancy_of ext (working_time lv1) duration;
          nd2 = (if d_gt ext occupancy (d_0_02 ext)
                 then nd1\<lparr>logged := logged nd1 @ [InfoOccupancy occupancy]\<rparr> else nd1);
          stat = server_statistics ext duration (epoch lv1) (working_time lv1) nd2;
          key1 = get_metadata_key ext wt kSelfTier (tid wt) server_stats;
          nd3 = send_report ext key1 (put_request key1 ts (Statistics stat)) nd2;
          (current_time, lv2) = now ext lv1;
          access = key_access_counts current_time (key_access_tracker nd3);
          key2 = get_metadata_key ext wt kSelfTier (tid wt) key_access;
          nd4 = send_report ext key2 (put_request key2 ts (KeyAccessData access)) nd3;
          sizes = primary_key_size ext (others nd4) wt (stored_key_map nd4);
          key3 = get_metadata_key ext wt kSelfTier (tid wt) key_size;
          nd5 = send_report ext key3 (put_request key3 ts (KeySizeData sizes)) nd4;
          (t, lv3) = now ext lv2;
          lv4 = lv3\<lparr>report_start := t\<rparr>;
          nd6 = (if management_ip \<noteq> ''NULL''
                 then nd5\<lparr>outbox := outbox nd5 @
                        [(get_func_nodes_req_address ext management_ip,
                          StringMsg (management_node_response_connect_address ext wt))]\<rparr>
                 else nd5)
      in (nd6\<lparr>access_count := 0\<rparr>,
          lv4\<lparr>working_time := 0,
              working_time_map := map (\<lambda>_. 0) (working_time_map lv4)\<rparr>))"

definition report_section ::
  "('v, 'd, 'h) externals \<Rightarrow> Tier \<Rightarrow> ServerThread \<Rightarrow> Address \<Rightarrow> nat \<Rightarrow>
     ('v, 'd, 'h) node \<times> loop_vars \<Rightarrow> ('v, 'd, 'h) node \<times> loop_vars" where
  "report_section ext kSelfTier wt management_ip ts st =
     (let (t, lv0) = now ext (snd st);
          lv1 = lv0\<lparr>report_end := t\<rparr>;
          duration = as_seconds (report_end lv1 - report_start lv1)
      in if duration \<ge> kServerReportThreshold
         then report ext kSelfTier wt management_ip ts duration (fst st, lv1)
         else (fst st, lv1))"

subsection \<open>One iteration of the loop, and the loop\<close>

text \<open>
  What one iteration receives: for each of the nine polled sockets the string
  \<^verbatim>\<open>recv_string\<close> returns if \<^verbatim>\<open>poll\<close> reported the socket readable (\<open>None\<close> if it did
  not), and the timestamp \<^verbatim>\<open>generate_timestamp\<close> would return.
\<close>

record tick_input =
  join_msg :: "string option"
  depart_msg :: "string option"
  self_depart_msg :: "string option"
  request_msg :: "string option"
  gossip_msg :: "string option"
  replication_response_msg :: "string option"
  replication_change_msg :: "string option"
  cache_ip_response_msg :: "string option"
  management_node_response_msg :: "string option"
  timestamp :: nat

text \<open>
  What the loop reads of the arguments of \<^verbatim>\<open>run\<close> and of the globals: the handle
  \<^verbatim>\<open>wt\<close> of the thread, \<^verbatim>\<open>management_ip\<close> and \<^verbatim>\<open>kSelfTier\<close>.
\<close>

record run_args =
  run_wt :: ServerThread
  run_management_ip :: Address
  run_kSelfTier :: Tier

text \<open>How an iteration ends: the loop goes on, or \<^verbatim>\<open>run\<close> returns.\<close>

datatype 'a step = Continue 'a | Return 'a

definition on_message ::
  "('v, 'd, 'h) externals \<Rightarrow> nat \<Rightarrow> string option \<Rightarrow>
     (string \<Rightarrow> ('v, 'd, 'h) node \<Rightarrow> ('v, 'd, 'h) node) \<Rightarrow>
     ('v, 'd, 'h) node \<times> loop_vars \<Rightarrow> ('v, 'd, 'h) node \<times> loop_vars" where
  "on_message ext i msg handler st =
     (case msg of None \<Rightarrow> st | Some serialized \<Rightarrow> timed ext i (handler serialized) st)"

definition iteration ::
  "('v, 'd, 'h) externals \<Rightarrow> run_args \<Rightarrow> tick_input \<Rightarrow> ('v, 'd, 'h) node \<times> loop_vars \<Rightarrow>
     halt + (('v, 'd, 'h) node \<times> loop_vars) step" where
  "iteration ext a inp st =
     (let st1 = on_message ext 0 (join_msg inp) (node_join_handler ext) st;
          st2 = on_message ext 1 (depart_msg inp) (node_depart_handler ext) st1
      in case self_depart_msg inp of
           Some serialized \<Rightarrow> Inr (Return (self_depart_handler ext serialized (fst st2), snd st2))
         | None \<Rightarrow>
             let st3 = on_message ext 3 (request_msg inp) (user_request_handler ext) st2;
                 st4 = on_message ext 4 (gossip_msg inp) (gossip_handler ext) st3;
                 st5 = on_message ext 5 (replication_response_msg inp)
                         (replication_response_handler ext) st4;
                 st6 = on_message ext 6 (replication_change_msg inp)
                         (replication_change_handler ext) st5;
                 st7 = on_message ext 7 (cache_ip_response_msg inp)
                         (cache_ip_response_handler ext) st6;
                 st8 = on_message ext 8 (management_node_response_msg inp)
                         (management_node_response_handler ext) st7;
                 st9 = gossip_section ext (run_wt a) st8;
                 st10 = report_section ext (run_kSelfTier a) (run_wt a) (run_management_ip a)
                          (timestamp inp) st9
             in case redistribute (DATA_REDISTRIBUTE_THRESHOLD ext) (default_KeyProperty ext)
                       (fst st10) of
                  Inl h \<Rightarrow> Inl h
                | Inr nd \<Rightarrow> Inr (Continue (nd, snd st10)))"

text \<open>
  The loop \<^verbatim>\<open>while (true)\<close> on the inputs of its first iterations: the result is
  \<open>Continue\<close> when the loop is still running after them.
\<close>

fun run_loop ::
  "('v, 'd, 'h) externals \<Rightarrow> run_args \<Rightarrow> tick_input list \<Rightarrow> ('v, 'd, 'h) node \<times> loop_vars \<Rightarrow>
     halt + (('v, 'd, 'h) node \<times> loop_vars) step" where
  "run_loop ext a [] st = Inr (Continue st)"
| "run_loop ext a (inp # inps) st =
     (case iteration ext a inp st of
        Inl h \<Rightarrow> Inl h
      | Inr (Return st') \<Rightarrow> Inr (Return st')
      | Inr (Continue st') \<Rightarrow> run_loop ext a inps st')"

text \<open>Whether \<^verbatim>\<open>run\<close> has returned, and whether the loop is still running.\<close>

definition returns :: "halt + 'a step \<Rightarrow> bool" where
  "returns r = (case r of Inr (Return _) \<Rightarrow> True | _ \<Rightarrow> False)"

definition running :: "halt + 'a step \<Rightarrow> bool" where
  "running r = (case r of Inr (Continue _) \<Rightarrow> True | _ \<Rightarrow> False)"

text \<open>
  \<open>n\<close> consecutive executions of the redistribution block, as in \<open>n\<close> iterations of
  the loop in which no message arrives and no timer fires.
\<close>

fun redistribute_times ::
  "nat \<Rightarrow> nat \<Rightarrow> KeyProperty \<Rightarrow> ('v, 'd, 'h) node \<Rightarrow> halt + ('v, 'd, 'h) node" where
  "redistribute_times 0 T dflt nd = Inr nd"
| "redistribute_times (Suc n) T dflt nd =
     (case redistribute T dflt nd of
        Inl h \<Rightarrow> Inl h
      | Inr nd' \<Rightarrow> redistribute_times n T dflt nd')"

section \<open>A small cluster, for concrete evaluation\<close>

text \<open>
  Two servers; every key is replicated on both, and the first of them is the primary
  replica of \<open>k1\<close> only.  Lattice values are strings, \<^verbatim>\<open>double\<close> is read as the real
  numbers, and the state kept outside \<^verbatim>\<open>server.cpp\<close> is trivial.  The clock stands at
  100 seconds.  \<open>demo_externals ts\<close> has \<open>ts\<close> as the responsible threads of every
  metadata key.
\<close>

definition demo_thread :: ServerThread where
  "demo_thread = \<lparr>public_ip = ''54.0.0.1'', private_ip = ''10.0.0.1'', tid = 0\<rparr>"

definition demo_peer :: ServerThread where
  "demo_peer = \<lparr>public_ip = ''54.0.0.2'', private_ip = ''10.0.0.2'', tid = 0\<rparr>"

definition demo_externals :: "ServerThread list \<Rightarrow> (string, real, unit) externals" where
  "demo_externals metadata_threads =
     \<lparr>node_join_handler = (\<lambda>_ nd. nd),
      node_depart_handler = (\<lambda>_ nd. nd),
      self_depart_handler = (\<lambda>_ nd. nd),
      user_request_handler = (\<lambda>_ nd. nd),
      gossip_handler = (\<lambda>_ nd. nd),
      replication_response_handler = (\<lambda>_ nd. nd),
      replication_change_handler = (\<lambda>_ nd. nd),
      cache_ip_response_handler = (\<lambda>_ nd. nd),
      management_node_response_handler = (\<lambda>_ nd. nd),
      get_responsible_threads = (\<lambda>key env. (([demo_thread, demo_peer], True), env)),
      get_responsible_threads_metadata = (\<lambda>key h. (metadata_threads, h)),
      responsible_list =
        (\<lambda>h key. if key = ''k1'' then [demo_thread, demo_peer] else [demo_peer, demo_thread]),
      thread_eq = (\<lambda>a b. private_ip a = private_ip b \<and> tid a = tid b),
      gossip_connect_address = (\<lambda>t. private_ip t @ '':gossip''),
      key_request_connect_address = (\<lambda>t. private_ip t @ '':request''),
      cache_update_connect_address = (\<lambda>ip. ip @ '':cache''),
      management_node_response_connect_address = (\<lambda>t. private_ip t @ '':mgmt''),
      get_func_nodes_req_address = (\<lambda>ip. ip @ '':funcs''),
      get_metadata_key =
        (\<lambda>t tier i kind.
           case kind of server_stats \<Rightarrow> ''stats'' | key_access \<Rightarrow> ''access''
           | key_size \<Rightarrow> ''size''),
      rand_r = (\<lambda>s. (unat s, s + 1)),
      clock = (\<lambda>n. 100000000000),
      PERIOD = 10000000,
      DATA_REDISTRIBUTE_THRESHOLD = 2,
      default_KeyProperty = \<lparr>prop_size = 0, prop_type = OtherLattice 0\<rparr>,
      d_of_int = real_of_int,
      d_mul = (\<lambda>x y. x * y),
      d_div = (\<lambda>x y. x / y),
      d_gt = (\<lambda>x y. x > y),
      d_0_02 = 2 / 100\<rparr>"

text \<open>
  The thread stores \<open>k1\<close>, \<open>k2\<close> and \<open>k3\<close>; \<open>k1\<close> was changed since the last gossip and is
  held by one cache; it was read at the times 0 s and 1 s.
\<close>

definition demo_node :: "(string, real, unit) node" where
  "demo_node =
     \<lparr>seed = 0,
      join_gossip_map = [],
      join_remove_set = [],
      key_to_cache_ips = [(''k1'', [''10.0.1.1''])],
      stored_key_map =
        [(''k1'', \<lparr>prop_size = 1500, prop_type = LWW\<rparr>),
         (''k2'', \<lparr>prop_size = 2500, prop_type = SET\<rparr>),
         (''k3'', \<lparr>prop_size = 3000, prop_type = LWW\<rparr>)],
      serializers =
        [LWW \<mapsto> [''k1'' \<mapsto> ''v1'', ''k3'' \<mapsto> ''v3''], SET \<mapsto> [''k2'' \<mapsto> ''v2'']],
      local_changeset = [''k1''],
      key_access_tracker = [(''k1'', [0, 1000000000])],
      access_count = 5,
      others = (),
      outbox = [],
      logged = []\<rparr>"

definition demo_vars :: loop_vars where
  "demo_vars =
     \<lparr>gossip_start = 100000000000,
      gossip_end = 100000000000,
      report_start = 0,
      report_end = 0,
      working_time = 3000000,
      working_time_map = [0, 0, 0, 3000000, 0, 0, 0, 0, 0, 0],
      epoch = 6,
      clock_reads = 0\<rparr>"

text \<open>
  After a third server has joined: in \<open>joined_node\<close> all three keys wait to be sent to
  it, in \<open>joined_node_small\<close> only \<open>k2\<close>; in both, \<open>k2\<close> is to be removed afterwards.
\<close>

definition joined_node :: "(string, real, unit) node" where
  "joined_node =
     demo_node\<lparr>join_gossip_map := [(''10.0.0.3:gossip'', [''k1'', ''k2'', ''k3''])],
               join_remove_set := [''k2'']\<rparr>"

definition joined_node_small :: "(string, real, unit) node" where
  "joined_node_small =
     demo_node\<lparr>join_gossip_map := [(''10.0.0.3:gossip'', [''k2''])],
               join_remove_set := [''k2'']\<rparr>"

text \<open>An iteration in which no socket is readable, and one with a self-depart message.\<close>

definition idle_input :: tick_input where
  "idle_input =
     \<lparr>join_msg = None, depart_msg = None, self_depart_msg = None, request_msg = None,
      gossip_msg = None, replication_response_msg = None, replication_change_msg = None,
      cache_ip_response_msg = None, management_node_response_msg = None, timestamp = 7\<rparr>"

definition depart_input :: tick_input where
  "depart_input = idle_input\<lparr>self_depart_msg := Some ''depart''\<rparr>"

text \<open>An iteration in which only the request socket is readable.\<close>

definition request_input :: tick_input where
  "request_input = idle_input\<lparr>request_msg := Some ''get''\<rparr>"

text \<open>
  After a third server has joined and \<open>k2\<close> waits to be sent to it, while the key
  \<open>zz\<close>, which is to be removed afterwards, is no longer in \<^verbatim>\<open>stored_key_map\<close>.
\<close>

definition orphan_node :: "(string, real, unit) node" where
  "orphan_node =
     demo_node\<lparr>join_gossip_map := [(''10.0.0.3:gossip'', [''k2''])],
               join_remove_set := [''zz'']\<rparr>"

definition demo_args :: run_args where
  "demo_args = \<lparr>run_wt = demo_thread, run_management_ip = ''NULL'', run_kSelfTier = MEMORY\<rparr>"

section \<open>Properties of \<^verbatim>\<open>main\<close>\<close>

text \<open>The definitions unfolded when the functions are evaluated on the small cluster.\<close>

lemmas demo_defs = demo_externals_def demo_node_def demo_vars_def demo_thread_def demo_peer_def
  idle_input_def depart_input_def demo_args_def joined_node_def joined_node_small_def
  request_input_def orphan_node_def

lemmas eval_defs = iteration_def on_message_def gossip_section_def report_section_def report_def
  redistribute_def now_def as_seconds_def as_microseconds_def trunc_div_def
  kServerReportThreshold_def kKeyMonitoringThreshold_def send_report_def put_request_def
  server_statistics_def total_consumption_def occupancy_of_def key_access_counts_def
  set_erase_def is_primary_replica_def Let_def

lemma c_char_Cons: "c_char (a # s) = of_char a"
  by (simp add: c_char_def)

lemma c_char_Nil: "c_char [] = 0"
  by (simp add: c_char_def)

lemma strncmp_prefix:
  "\<forall>c \<in> set t. (of_char c :: nat) \<noteq> 0 \<Longrightarrow>
     (strncmp s t (length t) = 0) = (take (length t) s = t)"
proof (induction t arbitrary: s)
  case Nil
  then show ?case by simp
next
  case (Cons c t)
  have c0: "(of_char c :: nat) \<noteq> 0" using Cons.prems by simp
  have rest: "\<forall>c \<in> set t. (of_char c :: nat) \<noteq> 0" using Cons.prems by simp
  show ?case
  proof (cases s)
    case Nil
    then show ?thesis using c0 by (simp add: c_char_Cons c_char_Nil)
  next
    case (Cons a s')
    show ?thesis
    proof (cases "a = c")
      case True
      then show ?thesis
        using Cons c0 Cons.IH [OF rest, of s'] by (simp add: c_char_Cons)
    next
      case False
      then have "(of_char a :: nat) \<noteq> of_char c" by simp
      then show ?thesis using Cons False by (simp add: c_char_Cons)
    qed
  qed
qed

lemma strncmp_memory: "(strncmp s ''memory'' 6 = 0) = (take 6 s = ''memory'')"
proof -
  have nz: "\<forall>c \<in> set ''memory''. (of_char c :: nat) \<noteq> 0" by simp
  have len: "length ''memory'' = 6" by simp
  show ?thesis using strncmp_prefix [OF nz, of s] unfolding len .
qed

lemma strncmp_ebs: "(strncmp s ''ebs'' 3 = 0) = (take 3 s = ''ebs'')"
proof -
  have nz: "\<forall>c \<in> set ''ebs''. (of_char c :: nat) \<noteq> 0" by simp
  have len: "length ''ebs'' = 3" by simp
  show ?thesis using strncmp_prefix [OF nz, of s] unfolding len .
qed

text \<open>
  C9.  The value of \<^verbatim>\<open>SERVER_TYPE\<close> is matched by prefix: a value whose first six
  characters are \<open>memory\<close> selects the memory tier, and a value whose first three
  characters are \<open>ebs\<close> selects the disk tier, whatever follows.
\<close>

theorem server_type_prefix:
  "(take 6 s = ''memory'' \<longrightarrow> select_tier (Some s) = Inr MEMORY) \<and>
   (take 3 s = ''ebs'' \<longrightarrow> select_tier (Some s) = Inr DISK)"
proof -
  have "take 3 s = ''ebs'' \<Longrightarrow> take 6 s \<noteq> ''memory''"
    by (cases s) auto
  then show ?thesis
    by (auto simp: select_tier_def strncmp_memory strncmp_ebs)
qed

text \<open>The theorem at the values \<open>memoryX\<close> and \<open>ebs-gp2\<close>.\<close>

theorem server_type_prefix_witness:
  "take 6 ''memoryX'' = ''memory'' \<and> select_tier (Some ''memoryX'') = Inr MEMORY \<and>
   take 3 ''ebs-gp2'' = ''ebs'' \<and> select_tier (Some ''ebs-gp2'') = Inr DISK"
  using server_type_prefix [of "''memoryX''"] server_type_prefix [of "''ebs-gp2''"]
  by simp

lemma main_single:
  "select_tier stype = Inr t \<Longrightarrow> thread_number c t \<le> 1 \<Longrightarrow> main 1 stype c disk = Exit 0"
proof -
  assume a: "select_tier stype = Inr t" and b: "thread_number c t \<le> 1"
  have t: "t = MEMORY \<or> t = DISK" using a
    by (auto simp: select_tier_def split: option.splits if_splits)
  have e: "[1..<thread_number c t] = []" using b by simp
  show ?thesis using a t e
    by (auto simp: main_def Let_def spawn_workers_def create_serializers_def)
qed

lemma join_workers_upto:
  "length ws = n \<Longrightarrow> i \<le> n \<Longrightarrow> (\<forall>j. i \<le> j \<and> j < n \<longrightarrow> joinable (ws ! j)) \<Longrightarrow> join_workers [i..<Suc n] ws = Inl OutOfRange"
proof (induction "n - i" arbitrary: i ws)
  case 0
  then have "i = n" by simp
  then show ?case using 0 by (simp add: upt_rec)
next
  case (Suc d)
  then have lt: "i < n" by simp
  have "[i..<Suc n] = i # [Suc i..<Suc n]" using lt by (simp add: upt_rec)
  moreover have "join_workers [Suc i..<Suc n] (ws[i := (ws ! i)\<lparr>joinable := False\<rparr>]) = Inl OutOfRange"
    using Suc lt by (intro Suc.hyps(1)) auto
  ultimately show ?case using Suc.prems lt by simp
qed

lemma main_multi:
  "select_tier stype = Inr t \<Longrightarrow> thread_number c t \<ge> 2 \<Longrightarrow> main 1 stype c disk = OutOfRange"
proof -
  assume a: "select_tier stype = Inr t" and b: "thread_number c t \<ge> 2"
  have t: "t = MEMORY \<or> t = DISK" using a
    by (auto simp: select_tier_def split: option.splits if_splits)
  obtain n where n: "thread_number c t = Suc (Suc n)" using b
    by (metis Suc_le_D numeral_2_eq_2 Suc_le_mono)
  have len: "length (spawn_workers (Suc (Suc n))) = Suc n" by (simp add: spawn_workers_def del: upt_Suc)
  have all: "\<forall>j. 1 \<le> j \<and> j < Suc n \<longrightarrow> joinable (spawn_workers (Suc (Suc n)) ! j)"
    by (simp add: spawn_workers_def del: upt_Suc)
  have "join_workers [1..<Suc (Suc n)] (spawn_workers (Suc (Suc n))) = Inl OutOfRange"
    using join_workers_upto [OF len _ all] by simp
  then show ?thesis using a t n
    by (auto simp: main_def Let_def create_serializers_def)
qed

text \<open>
  C8, as amended.  Without \<^verbatim>\<open>SERVER_TYPE\<close> the tier is the memory tier.  A value that
  begins with neither \<open>memory\<close> nor \<open>ebs\<close> makes \<^verbatim>\<open>main\<close> return 1.  A worker thread
  whose tier is neither \<^verbatim>\<open>MEMORY\<close> nor \<^verbatim>\<open>DISK\<close> exits with status 1.  When the node
  runs a single thread and its loop has ended by a self-depart message, \<^verbatim>\<open>main\<close>
  returns 0.
\<close>

theorem tier_and_exit_status:
  "select_tier None = Inr MEMORY \<and>
   (take 6 s \<noteq> ''memory'' \<and> take 3 s \<noteq> ''ebs'' \<longrightarrow> main 1 (Some s) c disk = Exit 1) \<and>
   (t \<noteq> MEMORY \<and> t \<noteq> DISK \<longrightarrow> create_serializers t disk' = Inl (Exit 1)) \<and>
   (select_tier stype = Inr t' \<and> thread_number c t' \<le> 1 \<longrightarrow> main 1 stype c disk = Exit 0)"
  using main_single [of stype t' c disk]
  by (auto simp: select_tier_def main_def strncmp_memory strncmp_ebs create_serializers_def)

text \<open>
  The theorem at the value \<open>disk\<close>, at a tier outside the enumeration, and at a node
  with one thread.
\<close>

theorem tier_and_exit_status_witness:
  "select_tier None = Inr MEMORY \<and>
   take 6 ''disk'' \<noteq> ''memory'' \<and> take 3 ''disk'' \<noteq> ''ebs'' \<and>
   main 1 (Some ''disk'') \<lparr>threads_memory = 1, threads_ebs = 1, threads_default = 0\<rparr>
     (\<lambda>_. Map.empty :: string Serializer) = Exit 1 \<and>
   OtherTier 3 \<noteq> MEMORY \<and> OtherTier 3 \<noteq> DISK \<and>
   create_serializers (OtherTier 3) (\<lambda>_. Map.empty :: string Serializer) = Inl (Exit 1) \<and>
   thread_number \<lparr>threads_memory = 1, threads_ebs = 1, threads_default = 0\<rparr> MEMORY \<le> 1 \<and>
   main 1 None \<lparr>threads_memory = 1, threads_ebs = 1, threads_default = 0\<rparr>
     (\<lambda>_. Map.empty :: string Serializer) = Exit 0"
  using tier_and_exit_status [where s = "''disk''" and stype = None and t = "OtherTier 3"
      and t' = MEMORY and c = "\<lparr>threads_memory = 1, threads_ebs = 1, threads_default = 0\<rparr>"
      and disk = "\<lambda>_. Map.empty :: string Serializer"
      and disk' = "\<lambda>_. Map.empty :: string Serializer"]
  by (simp add: select_tier_def thread_number_def)

text \<open>
  Against C8 as stated: the values \<open>memoryX\<close> and \<open>ebs-gp2\<close> name no tier and yet
  select one, and with two threads per node the joining loop of \<^verbatim>\<open>main\<close> reads
  \<^verbatim>\<open>worker_threads[1]\<close> of a vector of length one instead of returning 0.
\<close>

theorem exit_status_counterexample:
  "select_tier (Some ''memoryX'') = Inr MEMORY \<and>
   select_tier (Some ''ebs-gp2'') = Inr DISK \<and>
   main 1 None \<lparr>threads_memory = 2, threads_ebs = 2, threads_default = 0\<rparr>
     (\<lambda>_. Map.empty :: string Serializer) = OutOfRange"
  by (simp add: select_tier_def strncmp_memory strncmp_ebs main_def thread_number_def
      spawn_workers_def create_serializers_def upt_rec)

section \<open>Properties of the containers\<close>

lemma set_set_insert [simp]: "set (set_insert x xs) = insert x (set xs)"
  by (induction xs) auto

lemma map_of_map_put: "map_of (map_put k v m) = (map_of m)(k \<mapsto> v)"
  by (induction m) (auto simp: fun_eq_iff)

lemma staged_stage:
  "staged (stage a k m) b = (if b = a then insert k (staged m a) else staged m b)"
  by (simp add: staged_def stage_def map_find_def map_of_map_put split: option.splits)

lemma staged_stage_mono: "staged m b \<subseteq> staged (stage a k m) b"
  by (simp add: staged_stage subset_insertI)

lemma map_find_erase:
  "map_find k (map_erase k' m) = (if k = k' then None else map_find k m)"
  by (induction m) (auto simp: map_find_def map_erase_def)

section \<open>Properties of the redistribution after a join\<close>

lemma remove_keys_stored:
  "remove_keys dflt ks skm sers = Inr (skm', sers') \<Longrightarrow>
     skm' = filter (\<lambda>p. fst p \<notin> set ks) skm"
proof (induction ks arbitrary: skm sers)
  case Nil
  then show ?case by simp
next
  case (Cons key keys)
  define q where "q = (case map_find key skm of None \<Rightarrow> dflt | Some p \<Rightarrow> p)"
  from Cons.prems obtain s0 where
    rest: "remove_keys dflt keys (map_erase key skm)
             (sers(prop_type q \<mapsto> serializer_remove key s0)) = Inr (skm', sers')"
    by (auto simp: Let_def q_def split: option.splits)
  have "skm' = filter (\<lambda>p. fst p \<notin> set keys) (map_erase key skm)"
    by (rule Cons.IH [OF rest])
  also have "\<dots> = filter (\<lambda>p. fst p \<notin> set (key # keys)) skm"
    by (simp add: map_erase_def conj_commute)
  finally show ?case .
qed

lemma remove_keys_only_removes:
  "remove_keys dflt ks skm sers = Inr (skm', sers') \<Longrightarrow> sers t = Some s \<Longrightarrow>
     \<exists>s'. sers' t = Some s' \<and> (\<forall>k. s k = None \<longrightarrow> s' k = None) \<and> (\<forall>k. k \<notin> set ks \<longrightarrow> s' k = s k)"
proof (induction ks arbitrary: skm sers s)
  case Nil
  then show ?case by simp
next
  case (Cons key keys)
  define p where "p = (case map_find key skm of None \<Rightarrow> dflt | Some p \<Rightarrow> p)"
  from Cons.prems(1) obtain s0 where s0: "sers (prop_type p) = Some s0"
    and rest: "remove_keys dflt keys (map_erase key skm)
                 (sers(prop_type p \<mapsto> serializer_remove key s0)) = Inr (skm', sers')"
    by (auto simp: Let_def p_def split: option.splits)
  show ?case
  proof (cases "t = prop_type p")
    case True
    then have "s0 = s" using s0 Cons.prems(2) by simp
    then have "(sers(prop_type p \<mapsto> serializer_remove key s0)) t = Some (serializer_remove key s)"
      using True by simp
    from Cons.IH [OF rest this] show ?thesis
      by (auto simp: serializer_remove_def split: if_splits)
  next
    case False
    then have "(sers(prop_type p \<mapsto> serializer_remove key s0)) t = Some s"
      using Cons.prems(2) by simp
    from Cons.IH [OF rest this] show ?thesis by auto
  qed
qed

lemma remove_keys_removed:
  "remove_keys dflt ks skm sers = Inr (skm', sers') \<Longrightarrow> k \<in> set ks \<Longrightarrow>
   map_find k skm = Some p \<Longrightarrow> \<exists>s'. sers' (prop_type p) = Some s' \<and> s' k = None"
proof (induction ks arbitrary: skm sers)
  case Nil
  then show ?case by simp
next
  case (Cons key keys)
  define q where "q = (case map_find key skm of None \<Rightarrow> dflt | Some p \<Rightarrow> p)"
  from Cons.prems(1) obtain s0 where s0: "sers (prop_type q) = Some s0"
    and rest: "remove_keys dflt keys (map_erase key skm)
                 (sers(prop_type q \<mapsto> serializer_remove key s0)) = Inr (skm', sers')"
    by (auto simp: Let_def q_def split: option.splits)
  show ?case
  proof (cases "k = key")
    case True
    then have "q = p" using Cons.prems(3) by (simp add: q_def)
    then have "(sers(prop_type q \<mapsto> serializer_remove key s0)) (prop_type p)
                 = Some (serializer_remove key s0)" by simp
    from remove_keys_only_removes [OF rest this] show ?thesis
      using True by (auto simp: serializer_remove_def)
  next
    case False
    then have "k \<in> set keys" using Cons.prems(2) by simp
    moreover have "map_find k (map_erase key skm) = Some p"
      using False Cons.prems(3) by (simp add: map_find_erase)
    ultimately show ?thesis using Cons.IH [OF rest] by blast
  qed
qed

lemma send_gossip_fields [simp]:
  "join_gossip_map (send_gossip m nd) = join_gossip_map nd"
  "join_remove_set (send_gossip m nd) = join_remove_set nd"
  "stored_key_map (send_gossip m nd) = stored_key_map nd"
  "serializers (send_gossip m nd) = serializers nd"
  "local_changeset (send_gossip m nd) = local_changeset nd"
  "outbox (send_gossip m nd) = outbox nd @ gossip_messages m nd"
  by (simp_all add: send_gossip_def)

text \<open>
  The block ends normally when every key to remove is stored with a type that has a
  serializer.
\<close>

lemma remove_keys_returns:
  "\<forall>k \<in> set ks. \<exists>p. map_find k skm = Some p \<and> prop_type p \<in> dom sers \<Longrightarrow> distinct ks \<Longrightarrow>
     \<exists>r. remove_keys dflt ks skm sers = Inr r"
proof (induction ks arbitrary: skm sers)
  case Nil
  then show ?case by simp
next
  case (Cons key keys)
  from Cons.prems(1) obtain p s where p: "map_find key skm = Some p" and s: "sers (prop_type p) = Some s"
    by auto
  have "\<forall>k \<in> set keys. \<exists>q. map_find k (map_erase key skm) = Some q \<and>
          prop_type q \<in> dom (sers(prop_type p \<mapsto> serializer_remove key s))"
    using Cons.prems by (auto simp: map_find_erase)
  moreover have "distinct keys" using Cons.prems(2) by simp
  ultimately have "\<exists>r. remove_keys dflt keys (map_erase key skm)
                         (sers(prop_type p \<mapsto> serializer_remove key s)) = Inr r"
    by (rule Cons.IH)
  then show ?case using p s by simp
qed

lemma redistribute_returns:
  assumes "\<forall>k \<in> set (join_remove_set nd).
             \<exists>p. map_find k (stored_key_map nd) = Some p \<and> prop_type p \<in> dom (serializers nd)"
    and "distinct (join_remove_set nd)"
  shows "\<exists>nd'. redistribute T dflt nd = Inr nd'"
proof -
  obtain r where "remove_keys dflt (join_remove_set nd) (stored_key_map nd) (serializers nd) = Inr r"
    using remove_keys_returns [OF assms] by blast
  then show ?thesis
    by (cases r) (simp add: redistribute_def split_beta Let_def)
qed

text \<open>
  C3.  The redistribution block leaves \<^verbatim>\<open>stored_key_map\<close>, the serializers and
  \<^verbatim>\<open>join_remove_set\<close> as they are when \<^verbatim>\<open>join_gossip_map\<close> was empty before it or
  is not empty after the send.  When the map was not empty and is empty after the send,
  exactly the keys of \<^verbatim>\<open>join_remove_set\<close> are erased from \<^verbatim>\<open>stored_key_map\<close>, each
  of them that was stored is removed from the serializer of its type, and
  \<^verbatim>\<open>join_remove_set\<close> is cleared.
\<close>

theorem join_remove_when_drained:
  assumes "redistribute T dflt nd = Inr nd'"
  shows "(join_gossip_map nd = [] \<or> join_gossip_map nd' \<noteq> [] \<longrightarrow>
            stored_key_map nd' = stored_key_map nd \<and> serializers nd' = serializers nd \<and>
            join_remove_set nd' = join_remove_set nd) \<and>
         (join_gossip_map nd \<noteq> [] \<and> join_gossip_map nd' = [] \<longrightarrow>
            join_remove_set nd' = [] \<and>
            stored_key_map nd' = filter (\<lambda>p. fst p \<notin> set (join_remove_set nd)) (stored_key_map nd) \<and>
            (\<forall>k \<in> set (join_remove_set nd). \<forall>p. map_find k (stored_key_map nd) = Some p \<longrightarrow>
               (\<exists>s'. serializers nd' (prop_type p) = Some s' \<and> s' k = None)))"
proof (cases "join_gossip_map nd = []")
  case True
  then show ?thesis using assms by (simp add: redistribute_def)
next
  case False
  obtain akm rm where d: "drain_entries T (join_gossip_map nd) [] [] = (akm, rm)"
    by (cases "drain_entries T (join_gossip_map nd) [] []")
  define jgm' where "jgm' = fold map_erase rm (join_gossip_map nd)"
  show ?thesis
  proof (cases "jgm' = []")
    case True
    from assms False d True obtain skm sers where
      r: "remove_keys dflt (join_remove_set nd) (stored_key_map nd) (serializers nd) = Inr (skm, sers)"
      and nd': "nd' = (send_gossip akm (nd\<lparr>join_gossip_map := jgm'\<rparr>))
                        \<lparr>stored_key_map := skm, serializers := sers, join_remove_set := []\<rparr>"
      by (auto simp: redistribute_def jgm'_def Let_def split: sum.splits)
    have "join_gossip_map nd' = []" using nd' True by simp
    moreover have "stored_key_map nd' = skm" "serializers nd' = sers" "join_remove_set nd' = []"
      using nd' by simp_all
    ultimately show ?thesis
      using False remove_keys_stored [OF r] remove_keys_removed [OF r] by auto
  next
    case nonempty: False
    from assms False d nonempty have nd': "nd' = send_gossip akm (nd\<lparr>join_gossip_map := jgm'\<rparr>)"
      by (auto simp: redistribute_def jgm'_def Let_def split: sum.splits)
    then show ?thesis using nonempty by simp
  qed
qed

lemma small_run:
  "\<exists>nd'. redistribute 2 \<lparr>prop_size = 0, prop_type = OtherLattice 0\<rparr> joined_node_small = Inr nd'"
  by (simp add: demo_defs redistribute_def stage_def map_find_def set_erase_def map_erase_def
      Let_def)

lemma stuck_step:
  "join_gossip_map nd = [(''10.0.0.3:gossip'', [''k1'', ''k2'', ''k3''])] \<Longrightarrow>
     \<exists>nd'. redistribute 2 dflt nd = Inr nd' \<and>
       join_gossip_map nd' = join_gossip_map nd \<and> join_remove_set nd' = join_remove_set nd \<and>
       stored_key_map nd' = stored_key_map nd \<and> serializers nd' = serializers nd"
  by (simp add: redistribute_def stage_def map_find_def set_erase_def Let_def)

text \<open>
  The theorem on \<open>joined_node_small\<close>, where the single key of the entry is sent, the
  map becomes empty and \<open>k2\<close> is removed, and on \<open>joined_node\<close>, where the map stays
  non-empty and nothing is removed.
\<close>

theorem join_remove_when_drained_witness:
  "(\<exists>nd'. redistribute 2 \<lparr>prop_size = 0, prop_type = OtherLattice 0\<rparr> joined_node_small = Inr nd' \<and>
     join_gossip_map joined_node_small \<noteq> [] \<and> join_gossip_map nd' = [] \<and>
     join_remove_set nd' = [] \<and>
     map fst (stored_key_map nd') = [''k1'', ''k3''] \<and>
     (\<exists>s'. serializers nd' SET = Some s' \<and> s' ''k2'' = None)) \<and>
   (\<exists>nd'. redistribute 2 \<lparr>prop_size = 0, prop_type = OtherLattice 0\<rparr> joined_node = Inr nd' \<and>
     join_gossip_map nd' \<noteq> [] \<and> join_remove_set nd' = [''k2''] \<and>
     map fst (stored_key_map nd') = [''k1'', ''k2'', ''k3''] \<and>
     serializers nd' = serializers joined_node)"
proof -
  obtain nd' where r:
    "redistribute 2 \<lparr>prop_size = 0, prop_type = OtherLattice 0\<rparr> joined_node_small = Inr nd'"
    using small_run by blast
  have e: "join_gossip_map nd' = []"
    using r by (auto simp: demo_defs redistribute_def stage_def map_find_def set_erase_def
        map_erase_def Let_def split: sum.splits)
  have n: "join_gossip_map joined_node_small \<noteq> []" by (simp add: demo_defs)
  have k: "''k2'' \<in> set (join_remove_set joined_node_small)" by (simp add: demo_defs)
  have p: "map_find ''k2'' (stored_key_map joined_node_small)
             = Some \<lparr>prop_size = 2500, prop_type = SET\<rparr>"
    by (simp add: demo_defs map_find_def)
  from join_remove_when_drained [OF r] n e k p
  have "join_remove_set nd' = []"
    and "stored_key_map nd' =
          filter (\<lambda>p. fst p \<notin> set (join_remove_set joined_node_small))
            (stored_key_map joined_node_small)"
    and "\<exists>s'. serializers nd' SET = Some s' \<and> s' ''k2'' = None"
    by force+
  then have first: "\<exists>nd'. redistribute 2 \<lparr>prop_size = 0, prop_type = OtherLattice 0\<rparr> joined_node_small = Inr nd' \<and>
     join_gossip_map joined_node_small \<noteq> [] \<and> join_gossip_map nd' = [] \<and>
     join_remove_set nd' = [] \<and>
     map fst (stored_key_map nd') = [''k1'', ''k3''] \<and>
     (\<exists>s'. serializers nd' SET = Some s' \<and> s' ''k2'' = None)"
    using r n e by (auto simp: demo_defs)
  have j: "join_gossip_map joined_node = [(''10.0.0.3:gossip'', [''k1'', ''k2'', ''k3''])]"
    by (simp add: demo_defs)
  from stuck_step [OF j] obtain nd2 where
    r2: "redistribute 2 \<lparr>prop_size = 0, prop_type = OtherLattice 0\<rparr> joined_node = Inr nd2"
    and j2: "join_gossip_map nd2 = join_gossip_map joined_node" by blast
  have ne2: "join_gossip_map nd2 \<noteq> []" using j j2 by simp
  from join_remove_when_drained [OF r2] ne2
  have "stored_key_map nd2 = stored_key_map joined_node"
    and "serializers nd2 = serializers joined_node"
    and "join_remove_set nd2 = join_remove_set joined_node"
    by blast+
  then have second: "\<exists>nd'. redistribute 2 \<lparr>prop_size = 0, prop_type = OtherLattice 0\<rparr> joined_node = Inr nd' \<and>
     join_gossip_map nd' \<noteq> [] \<and> join_remove_set nd' = [''k2''] \<and>
     map fst (stored_key_map nd') = [''k1'', ''k2'', ''k3''] \<and>
     serializers nd' = serializers joined_node"
    using r2 ne2 by (auto simp: demo_defs)
  show ?thesis by (intro conjI first second)
qed

lemma length_set_insert: "length (set_insert x xs) \<le> Suc (length xs)"
  by (induction xs) auto

lemma stage_keys_length:
  "ks \<noteq> [] \<Longrightarrow> length (snd (stage_keys T a ks m sent)) \<le> max T (Suc (length sent))"
proof (induction ks arbitrary: m sent)
  case Nil
  then show ?case by simp
next
  case (Cons k ks)
  define sent' where "sent' = set_insert k sent"
  have l: "length sent' \<le> Suc (length sent)" by (simp add: sent'_def length_set_insert)
  show ?case
  proof (cases "T \<le> length sent'")
    case True
    then show ?thesis using l by (simp add: Let_def sent'_def)
  next
    case False
    show ?thesis
    proof (cases "ks = []")
      case True
      then show ?thesis using False l by (simp add: Let_def sent'_def)
    next
      case nonempty: False
      have "length (snd (stage_keys T a ks (stage a k m) sent')) \<le> max T (Suc (length sent'))"
        by (rule Cons.IH [OF nonempty])
      then show ?thesis using False by (simp add: Let_def sent'_def)
    qed
  qed
qed

lemma fold_set_erase: "fold set_erase xs ks = filter (\<lambda>k. k \<notin> set xs) ks"
proof (induction xs arbitrary: ks)
  case Nil
  then show ?case by simp
next
  case (Cons x xs)
  have "fold set_erase (x # xs) ks = filter (\<lambda>k. k \<notin> set xs) (set_erase x ks)"
    by (simp add: Cons.IH)
  also have "\<dots> = filter (\<lambda>k. k \<notin> set (x # xs)) ks"
    by (simp add: set_erase_def conj_commute)
  finally show ?case .
qed

lemma long_entry_stays:
  assumes "distinct ks" and "max T 1 < length ks"
  shows "length (fold set_erase (snd (stage_keys T a ks m [])) ks) \<noteq> 0"
proof -
  define sent where "sent = snd (stage_keys T a ks m [])"
  have "ks \<noteq> []" using assms(2) by auto
  then have "length sent \<le> max T 1"
    using stage_keys_length [of ks T a m "[]"] by (simp add: sent_def)
  then have "card (set sent) < card (set ks)"
    using assms card_length [of sent] distinct_card [of ks] by linarith
  then have "\<not> set ks \<subseteq> set sent"
    using card_mono [of "set sent" "set ks"] by fastforce
  then obtain k where "k \<in> set ks" "k \<notin> set sent" by blast
  then have "k \<in> set (filter (\<lambda>k. k \<notin> set sent) ks)" by simp
  then have "filter (\<lambda>k. k \<notin> set sent) ks \<noteq> []" by fastforce
  then show ?thesis by (simp add: fold_set_erase sent_def)
qed

lemma drain_entries_long:
  "\<forall>e \<in> set jgm. distinct (snd e) \<and> max T 1 < length (snd e) \<Longrightarrow>
     snd (drain_entries T jgm m rm) = rm"
proof (induction jgm arbitrary: m rm)
  case Nil
  then show ?case by simp
next
  case (Cons e jgm)
  obtain a ks where e: "e = (a, ks)" by (cases e)
  have "distinct ks" "max T 1 < length ks" using Cons.prems e by auto
  then have stay: "length (fold set_erase (snd (stage_keys T a ks m [])) ks) \<noteq> 0"
    by (rule long_entry_stays)
  have rest: "\<forall>e \<in> set jgm. distinct (snd e) \<and> max T 1 < length (snd e)"
    using Cons.prems by simp
  show ?case
    using stay Cons.IH [OF rest] by (simp add: e split_beta Let_def)
qed

text \<open>
  An entry with more keys than the threshold is never shortened: the block stages its
  first keys again and leaves the map, \<^verbatim>\<open>join_remove_set\<close> and the stored keys as they
  were, whatever the value of \<^verbatim>\<open>DATA_REDISTRIBUTE_THRESHOLD\<close>.
\<close>

lemma join_gossip_map_stuck:
  assumes "join_gossip_map nd \<noteq> []"
    and "\<forall>e \<in> set (join_gossip_map nd). distinct (snd e) \<and> max T 1 < length (snd e)"
  shows "\<exists>nd'. redistribute T dflt nd = Inr nd' \<and>
           join_gossip_map nd' = join_gossip_map nd \<and> join_remove_set nd' = join_remove_set nd \<and>
           stored_key_map nd' = stored_key_map nd \<and> serializers nd' = serializers nd"
proof -
  have "snd (drain_entries T (join_gossip_map nd) [] []) = []"
    using assms(2) by (rule drain_entries_long)
  then show ?thesis using assms(1)
    by (simp add: redistribute_def split_beta Let_def)
qed

lemma stuck_forever:
  "join_gossip_map nd = [(''10.0.0.3:gossip'', [''k1'', ''k2'', ''k3''])] \<Longrightarrow>
     \<exists>nd'. redistribute_times n 2 dflt nd = Inr nd' \<and>
       join_gossip_map nd' = join_gossip_map nd \<and> join_remove_set nd' = join_remove_set nd \<and>
       stored_key_map nd' = stored_key_map nd \<and> serializers nd' = serializers nd"
proof (induction n arbitrary: nd)
  case 0
  then show ?case by simp
next
  case (Suc n)
  from stuck_step [OF Suc.prems, of dflt] obtain nd1 where
    r: "redistribute 2 dflt nd = Inr nd1" and
    f: "join_gossip_map nd1 = join_gossip_map nd" "join_remove_set nd1 = join_remove_set nd"
       "stored_key_map nd1 = stored_key_map nd" "serializers nd1 = serializers nd"
    by blast
  have "join_gossip_map nd1 = [(''10.0.0.3:gossip'', [''k1'', ''k2'', ''k3''])]"
    using f Suc.prems by simp
  from Suc.IH [OF this] show ?case using r f by simp
qed

text \<open>
  C2, on \<open>joined_node\<close> with the threshold 2: each execution of the block stages
  \<open>k1\<close> and \<open>k2\<close> and leaves the entry with its three keys, so that after any number
  of executions the entry is still there, \<open>k3\<close> has never been sent and \<open>k2\<close> has not
  been removed.
\<close>

theorem join_gossip_map_never_drains:
  "join_batch 2 (join_gossip_map joined_node) = [(''10.0.0.3:gossip'', [''k1'', ''k2''])] \<and>
   (\<forall>n. \<exists>nd'.
      redistribute_times n 2 \<lparr>prop_size = 0, prop_type = OtherLattice 0\<rparr> joined_node = Inr nd' \<and>
      join_gossip_map nd' = [(''10.0.0.3:gossip'', [''k1'', ''k2'', ''k3''])] \<and>
      join_remove_set nd' = [''k2''] \<and>
      map fst (stored_key_map nd') = [''k1'', ''k2'', ''k3''])"
proof -
  have j: "join_gossip_map joined_node = [(''10.0.0.3:gossip'', [''k1'', ''k2'', ''k3''])]"
    by (simp add: demo_defs)
  have b: "join_batch 2 (join_gossip_map joined_node) = [(''10.0.0.3:gossip'', [''k1'', ''k2''])]"
    by (simp add: j join_batch_def stage_def map_find_def set_erase_def)
  have "join_remove_set joined_node = [''k2'']"
    "map fst (stored_key_map joined_node) = [''k1'', ''k2'', ''k3'']"
    by (simp_all add: demo_defs)
  then show ?thesis using b stuck_forever [OF j] j by metis
qed

section \<open>Properties of the gossip of local changes\<close>

text \<open>
  The gossip block runs exactly in the iterations in which at least \<^verbatim>\<open>PERIOD\<close>
  microseconds have passed since \<^verbatim>\<open>gossip_start\<close>.
\<close>

lemma gossip_section_fires:
  "PERIOD ext \<le> as_microseconds (clock ext (clock_reads lv) - gossip_start lv) \<Longrightarrow>
     fst (gossip_section ext self (nd, lv)) = gossip_tick ext self nd"
  by (simp add: gossip_section_def now_def Let_def)

lemma gossip_section_idle:
  "\<not> PERIOD ext \<le> as_microseconds (clock ext (clock_reads lv) - gossip_start lv) \<Longrightarrow>
     fst (gossip_section ext self (nd, lv)) = nd"
  by (simp add: gossip_section_def now_def Let_def)

lemma staged_stage_threads_mono: "staged m b \<subseteq> staged (stage_threads ext wt key ts m) b"
proof (induction ts arbitrary: m)
  case Nil
  then show ?case by simp
next
  case (Cons t ts)
  define m' where
    "m' = (if \<not> thread_eq ext t wt then stage (gossip_connect_address ext t) key m else m)"
  have s1: "staged m b \<subseteq> staged m' b"
    unfolding m'_def using staged_stage_mono by (cases "thread_eq ext t wt") simp_all
  have s2: "staged m' b \<subseteq> staged (stage_threads ext wt key ts m') b"
    by (rule Cons.IH)
  have "stage_threads ext wt key (t # ts) m = stage_threads ext wt key ts m'"
    unfolding m'_def by (rule stage_threads.simps)
  then show ?case using subset_trans [OF s1 s2] by (simp only:)
qed

lemma staged_stage_threads:
  "t \<in> set ts \<Longrightarrow> \<not> thread_eq ext t wt \<Longrightarrow>
     key \<in> staged (stage_threads ext wt key ts m) (gossip_connect_address ext t)"
proof (induction ts arbitrary: m)
  case Nil
  then show ?case by simp
next
  case (Cons u ts)
  define m' where
    "m' = (if \<not> thread_eq ext u wt then stage (gossip_connect_address ext u) key m else m)"
  have step: "stage_threads ext wt key (u # ts) m = stage_threads ext wt key ts m'"
    unfolding m'_def by (rule stage_threads.simps)
  show ?case
  proof (cases "t = u")
    case True
    have "m' = stage (gossip_connect_address ext t) key m"
      using True Cons.prems(2) by (simp add: m'_def)
    then have "key \<in> staged m' (gossip_connect_address ext t)"
      by (simp add: staged_stage)
    moreover have "staged m' (gossip_connect_address ext t)
        \<subseteq> staged (stage_threads ext wt key ts m') (gossip_connect_address ext t)"
      by (rule staged_stage_threads_mono)
    ultimately show ?thesis unfolding step by (rule rev_subsetD)
  next
    case False
    then have "t \<in> set ts" using Cons.prems(1) by simp
    then show ?thesis unfolding step using Cons.prems(2) by (rule Cons.IH)
  qed
qed

lemma staged_stage_caches_mono: "staged m b \<subseteq> staged (stage_caches ext key cs m) b"
proof (induction cs arbitrary: m)
  case Nil
  then show ?case by simp
next
  case (Cons c cs)
  have s1: "staged m b \<subseteq> staged (stage (cache_update_connect_address ext c) key m) b"
    by (rule staged_stage_mono)
  have s2: "staged (stage (cache_update_connect_address ext c) key m) b
      \<subseteq> staged (stage_caches ext key cs (stage (cache_update_connect_address ext c) key m)) b"
    by (rule Cons.IH)
  show ?case using subset_trans [OF s1 s2] by simp
qed

lemma staged_stage_caches:
  "c \<in> set cs \<Longrightarrow> key \<in> staged (stage_caches ext key cs m) (cache_update_connect_address ext c)"
proof (induction cs arbitrary: m)
  case Nil
  then show ?case by simp
next
  case (Cons u cs)
  show ?case
  proof (cases "c = u")
    case True
    have "key \<in> staged (stage (cache_update_connect_address ext c) key m)
                  (cache_update_connect_address ext c)"
      by (simp add: staged_stage)
    moreover have "staged (stage (cache_update_connect_address ext c) key m)
                     (cache_update_connect_address ext c)
        \<subseteq> staged (stage_caches ext key cs (stage (cache_update_connect_address ext c) key m))
             (cache_update_connect_address ext c)"
      by (rule staged_stage_caches_mono)
    ultimately show ?thesis using True by auto
  next
    case False
    then have "c \<in> set cs" using Cons.prems by simp
    then show ?thesis using Cons.IH by simp
  qed
qed

lemma staged_stage_key_mono: "staged m b \<subseteq> staged (stage_key ext wt k2c key ans m) b"
proof -
  define m1 where "m1 = (if snd ans then stage_threads ext wt key (fst ans) m else m)"
  have s1: "staged m b \<subseteq> staged m1 b"
    unfolding m1_def using staged_stage_threads_mono by (cases "snd ans") simp_all
  have s2: "staged m1 b \<subseteq> staged (stage_key ext wt k2c key ans m) b"
  proof (cases "map_find key k2c")
    case None
    then show ?thesis by (simp add: stage_key_def m1_def)
  next
    case (Some cs)
    then have "stage_key ext wt k2c key ans m = stage_caches ext key cs m1"
      by (simp add: stage_key_def m1_def)
    then show ?thesis using staged_stage_caches_mono by simp
  qed
  show ?thesis by (rule subset_trans [OF s1 s2])
qed

lemma staged_stage_key_threads:
  assumes "snd ans" and "t \<in> set (fst ans)" and "\<not> thread_eq ext t wt"
  shows "key \<in> staged (stage_key ext wt k2c key ans m) (gossip_connect_address ext t)"
proof -
  define m1 where "m1 = stage_threads ext wt key (fst ans) m"
  have in1: "key \<in> staged m1 (gossip_connect_address ext t)"
    unfolding m1_def using assms(2,3) by (rule staged_stage_threads)
  show ?thesis
  proof (cases "map_find key k2c")
    case None
    then show ?thesis using in1 assms(1) by (simp add: stage_key_def m1_def)
  next
    case (Some cs)
    then have "stage_key ext wt k2c key ans m = stage_caches ext key cs m1"
      using assms(1) by (simp add: stage_key_def m1_def)
    moreover have "staged m1 (gossip_connect_address ext t)
        \<subseteq> staged (stage_caches ext key cs m1) (gossip_connect_address ext t)"
      by (rule staged_stage_caches_mono)
    ultimately show ?thesis using in1 by auto
  qed
qed

lemma staged_stage_key_caches:
  "map_find key k2c = Some cs \<Longrightarrow> c \<in> set cs \<Longrightarrow>
     key \<in> staged (stage_key ext wt k2c key ans m) (cache_update_connect_address ext c)"
  using staged_stage_caches [of c cs key ext]
  by (simp add: stage_key_def Let_def)

lemma resolve_key_frame:
  "resolve_key ext k nd = (ans, nd2) \<Longrightarrow>
     key_to_cache_ips nd2 = key_to_cache_ips nd \<and> stored_key_map nd2 = stored_key_map nd \<and>
     serializers nd2 = serializers nd \<and> local_changeset nd2 = local_changeset nd \<and>
     join_gossip_map nd2 = join_gossip_map nd \<and> join_remove_set nd2 = join_remove_set nd \<and>
     key_access_tracker nd2 = key_access_tracker nd \<and> access_count nd2 = access_count nd"
  by (auto simp: resolve_key_def Let_def split_beta split: if_splits)

lemma resolve_key_answer:
  "resolve_key ext k nd = (ans, nd2) \<Longrightarrow>
     get_responsible_threads ext k (others nd, outbox nd, seed nd) =
       (ans, (others nd2, outbox nd2, seed nd2))"
  by (auto simp: resolve_key_def Let_def split_beta split: if_splits)

lemma gossip_keys_Cons:
  "resolve_key ext k nd = (ans, nd2) \<Longrightarrow>
     gossip_keys ext wt (k # ks) nd m =
       gossip_keys ext wt ks nd2 (stage_key ext wt (key_to_cache_ips nd) k ans m)"
  using resolve_key_frame [of ext k nd ans nd2] by simp

lemma resolutions_Cons:
  "resolve_key ext k nd = (ans, nd2) \<Longrightarrow>
     resolutions ext (k # ks) (others nd, outbox nd, seed nd) =
       (k, fst ans, snd ans) # resolutions ext ks (others nd2, outbox nd2, seed nd2)"
  using resolve_key_answer [of ext k nd ans nd2] by simp

lemma gossip_keys_mono:
  "staged m b \<subseteq> staged (snd (gossip_keys ext wt ks nd m)) b"
proof (induction ks arbitrary: nd m)
  case Nil
  then show ?case by simp
next
  case (Cons k ks)
  obtain ans nd2 where r: "resolve_key ext k nd = (ans, nd2)"
    by (cases "resolve_key ext k nd")
  show ?case
    unfolding gossip_keys_Cons [OF r]
    by (rule subset_trans [OF staged_stage_key_mono Cons.IH])
qed

lemma gossip_keys_frame:
  "key_to_cache_ips (fst (gossip_keys ext wt ks nd m)) = key_to_cache_ips nd \<and>
   stored_key_map (fst (gossip_keys ext wt ks nd m)) = stored_key_map nd \<and>
   serializers (fst (gossip_keys ext wt ks nd m)) = serializers nd \<and>
   local_changeset (fst (gossip_keys ext wt ks nd m)) = local_changeset nd \<and>
   join_gossip_map (fst (gossip_keys ext wt ks nd m)) = join_gossip_map nd \<and>
   join_remove_set (fst (gossip_keys ext wt ks nd m)) = join_remove_set nd \<and>
   key_access_tracker (fst (gossip_keys ext wt ks nd m)) = key_access_tracker nd \<and>
   access_count (fst (gossip_keys ext wt ks nd m)) = access_count nd"
proof (induction ks arbitrary: nd m)
  case Nil
  then show ?case by simp
next
  case (Cons k ks)
  obtain ans nd2 where r: "resolve_key ext k nd = (ans, nd2)"
    by (cases "resolve_key ext k nd")
  show ?case
    unfolding gossip_keys_Cons [OF r]
    using Cons.IH [of nd2] resolve_key_frame [OF r] by simp
qed

lemma gossip_keys_threads:
  "(K, ts, True) \<in> set (resolutions ext ks (others nd, outbox nd, seed nd)) \<Longrightarrow>
   t \<in> set ts \<Longrightarrow> \<not> thread_eq ext t wt \<Longrightarrow>
     K \<in> staged (snd (gossip_keys ext wt ks nd m)) (gossip_connect_address ext t)"
proof (induction ks arbitrary: nd m)
  case Nil
  then show ?case by simp
next
  case (Cons k ks)
  obtain ans nd2 where r: "resolve_key ext k nd = (ans, nd2)"
    by (cases "resolve_key ext k nd")
  from Cons.prems(1) have
    "(K, ts, True) = (k, fst ans, snd ans) \<or>
     (K, ts, True) \<in> set (resolutions ext ks (others nd2, outbox nd2, seed nd2))"
    unfolding resolutions_Cons [OF r] by simp
  then show ?case
  proof
    assume e: "(K, ts, True) = (k, fst ans, snd ans)"
    then have "snd ans" "t \<in> set (fst ans)" "K = k" using Cons.prems(2) by auto
    then have "K \<in> staged (stage_key ext wt (key_to_cache_ips nd) k ans m)
                    (gossip_connect_address ext t)"
      using staged_stage_key_threads [of ans t ext wt k "key_to_cache_ips nd" m] Cons.prems(3)
      by simp
    then show ?thesis
      unfolding gossip_keys_Cons [OF r] using gossip_keys_mono by blast
  next
    assume "(K, ts, True) \<in> set (resolutions ext ks (others nd2, outbox nd2, seed nd2))"
    then show ?thesis
      unfolding gossip_keys_Cons [OF r] using Cons.IH [of nd2] Cons.prems(2,3) by simp
  qed
qed

lemma gossip_keys_caches:
  "K \<in> set ks \<Longrightarrow> map_find K (key_to_cache_ips nd) = Some cs \<Longrightarrow> c \<in> set cs \<Longrightarrow>
     K \<in> staged (snd (gossip_keys ext wt ks nd m)) (cache_update_connect_address ext c)"
proof (induction ks arbitrary: nd m)
  case Nil
  then show ?case by simp
next
  case (Cons k ks)
  obtain ans nd2 where r: "resolve_key ext k nd = (ans, nd2)"
    by (cases "resolve_key ext k nd")
  have k2c: "key_to_cache_ips nd2 = key_to_cache_ips nd"
    using resolve_key_frame [OF r] by simp
  show ?case
  proof (cases "K = k")
    case True
    have "K \<in> staged (stage_key ext wt (key_to_cache_ips nd) k ans m)
                (cache_update_connect_address ext c)"
      using staged_stage_key_caches [of k "key_to_cache_ips nd" cs c ext wt ans m]
        Cons.prems(2,3) True by simp
    then show ?thesis
      unfolding gossip_keys_Cons [OF r] using gossip_keys_mono by blast
  next
    case False
    then have "K \<in> set ks" using Cons.prems(1) by simp
    then show ?thesis
      unfolding gossip_keys_Cons [OF r] using Cons.IH [of nd2] k2c Cons.prems(2,3) by simp
  qed
qed

text \<open>
  C4.  When the gossip timer fires with a non-empty \<^verbatim>\<open>local_changeset\<close>: every key
  for which \<^verbatim>\<open>get_responsible_threads\<close> succeeded is staged under the gossip address
  of each returned thread that is not the thread itself; every key of the changeset is
  staged under the cache address of each cache in \<^verbatim>\<open>key_to_cache_ips\<close>; the staged
  batch is handed to \<^verbatim>\<open>send_gossip\<close>; and the changeset is empty afterwards.
\<close>

theorem gossip_tick_stages_and_clears:
  assumes "local_changeset nd \<noteq> []"
  shows "(\<forall>(K, threads, succeed) \<in> set (resolutions ext (local_changeset nd) (others nd, outbox nd, seed nd)).
            succeed \<longrightarrow> (\<forall>t \<in> set threads. \<not> thread_eq ext t wt \<longrightarrow>
               K \<in> staged (gossip_batch ext wt nd) (gossip_connect_address ext t))) \<and>
         (\<forall>K \<in> set (local_changeset nd). \<forall>cache_ips.
            map_find K (key_to_cache_ips nd) = Some cache_ips \<longrightarrow>
              (\<forall>c \<in> set cache_ips. K \<in> staged (gossip_batch ext wt nd) (cache_update_connect_address ext c))) \<and>
         gossip_tick ext wt nd =
           (send_gossip (gossip_batch ext wt nd) (fst (gossip_keys ext wt (local_changeset nd) nd [])))
             \<lparr>local_changeset := []\<rparr> \<and>
         local_changeset (gossip_tick ext wt nd) = []"
proof -
  have a0: "\<And>K threads t.
      (K, threads, True) \<in> set (resolutions ext (local_changeset nd) (others nd, outbox nd, seed nd)) \<Longrightarrow>
      t \<in> set threads \<Longrightarrow> \<not> thread_eq ext t wt \<Longrightarrow>
      K \<in> staged (gossip_batch ext wt nd) (gossip_connect_address ext t)"
    unfolding gossip_batch_def by (rule gossip_keys_threads)
  have a: "\<forall>(K, threads, succeed) \<in> set (resolutions ext (local_changeset nd) (others nd, outbox nd, seed nd)).
            succeed \<longrightarrow> (\<forall>t \<in> set threads. \<not> thread_eq ext t wt \<longrightarrow>
               K \<in> staged (gossip_batch ext wt nd) (gossip_connect_address ext t))"
    using a0 by clarsimp
  have b0: "\<And>K cache_ips c.
      K \<in> set (local_changeset nd) \<Longrightarrow> map_find K (key_to_cache_ips nd) = Some cache_ips \<Longrightarrow>
      c \<in> set cache_ips \<Longrightarrow>
      K \<in> staged (gossip_batch ext wt nd) (cache_update_connect_address ext c)"
    unfolding gossip_batch_def by (rule gossip_keys_caches)
  have b: "\<forall>K \<in> set (local_changeset nd). \<forall>cache_ips.
            map_find K (key_to_cache_ips nd) = Some cache_ips \<longrightarrow>
              (\<forall>c \<in> set cache_ips. K \<in> staged (gossip_batch ext wt nd) (cache_update_connect_address ext c))"
    using b0 by clarsimp
  have c: "gossip_tick ext wt nd =
           (send_gossip (gossip_batch ext wt nd) (fst (gossip_keys ext wt (local_changeset nd) nd [])))
             \<lparr>local_changeset := []\<rparr>"
    using assms by (simp add: gossip_tick_def gossip_batch_def split_beta)
  have d: "local_changeset (gossip_tick ext wt nd) = []"
    by (simp add: gossip_tick_def split_beta)
  show ?thesis by (intro conjI a b c d)
qed

text \<open>
  The theorem on \<open>demo_node\<close>: \<open>k1\<close> goes to the other server and to the cache, not
  to the thread itself.
\<close>

theorem gossip_tick_stages_and_clears_witness:
  "local_changeset demo_node \<noteq> [] \<and>
   (''k1'', [demo_thread, demo_peer], True)
      \<in> set (resolutions (demo_externals []) (local_changeset demo_node)
                (others demo_node, outbox demo_node, seed demo_node)) \<and>
   demo_peer \<in> set [demo_thread, demo_peer] \<and>
   \<not> thread_eq (demo_externals []) demo_peer demo_thread \<and>
   ''k1'' \<in> staged (gossip_batch (demo_externals []) demo_thread demo_node) ''10.0.0.2:gossip'' \<and>
   ''k1'' \<in> set (local_changeset demo_node) \<and>
   map_find ''k1'' (key_to_cache_ips demo_node) = Some [''10.0.1.1''] \<and>
   ''k1'' \<in> staged (gossip_batch (demo_externals []) demo_thread demo_node) ''10.0.1.1:cache'' \<and>
   outbox (gossip_tick (demo_externals []) demo_thread demo_node) =
     [(''10.0.0.2:gossip'', GossipMsg [(''k1'', LWW, ''v1'')]),
      (''10.0.1.1:cache'', GossipMsg [(''k1'', LWW, ''v1'')])] \<and>
   local_changeset (gossip_tick (demo_externals []) demo_thread demo_node) = []"
proof -
  have h: "local_changeset demo_node \<noteq> []" by (simp add: demo_defs)
  have r: "(''k1'', [demo_thread, demo_peer], True)
      \<in> set (resolutions (demo_externals []) (local_changeset demo_node)
                (others demo_node, outbox demo_node, seed demo_node))"
    by (simp add: demo_defs)
  have t: "demo_peer \<in> set [demo_thread, demo_peer]" by simp
  have n: "\<not> thread_eq (demo_externals []) demo_peer demo_thread" by (simp add: demo_defs)
  have k: "''k1'' \<in> set (local_changeset demo_node)" by (simp add: demo_defs)
  have c: "map_find ''k1'' (key_to_cache_ips demo_node) = Some [''10.0.1.1'']"
    by (simp add: demo_defs map_find_def)
  have a1: "gossip_connect_address (demo_externals []) demo_peer = ''10.0.0.2:gossip''"
    by (simp add: demo_defs)
  have a2: "cache_update_connect_address (demo_externals []) ''10.0.1.1'' = ''10.0.1.1:cache''"
    by (simp add: demo_defs)
  have o: "outbox (gossip_tick (demo_externals []) demo_thread demo_node) =
     [(''10.0.0.2:gossip'', GossipMsg [(''k1'', LWW, ''v1'')]),
      (''10.0.1.1:cache'', GossipMsg [(''k1'', LWW, ''v1'')])]"
    by (simp add: demo_defs gossip_tick_def resolve_key_def stage_key_def stage_def map_find_def
        send_gossip_def gossip_messages_def gossip_values_def List.map_filter_def Let_def)
  note th = gossip_tick_stages_and_clears [OF h, of "demo_externals []" demo_thread]
  have s1: "''k1'' \<in> staged (gossip_batch (demo_externals []) demo_thread demo_node) ''10.0.0.2:gossip''"
    using th r t n a1 by fastforce
  have s2: "''k1'' \<in> staged (gossip_batch (demo_externals []) demo_thread demo_node) ''10.0.1.1:cache''"
    using th k c a2 by fastforce
  have l: "local_changeset (gossip_tick (demo_externals []) demo_thread demo_node) = []"
    using th by blast
  show ?thesis by (intro conjI h r t n s1 k c s2 o l)
qed

section \<open>Properties of the periodic report\<close>

text \<open>
  The report block runs exactly in the iterations in which at least
  \<^verbatim>\<open>kServerReportThreshold\<close> whole seconds have passed since \<^verbatim>\<open>report_start\<close>.
\<close>

lemma report_section_fires:
  "kServerReportThreshold \<le> as_seconds (clock ext (clock_reads lv) - report_start lv) \<Longrightarrow>
     report_section ext tier self mip ts (nd, lv) =
       report ext tier self mip ts (as_seconds (clock ext (clock_reads lv) - report_start lv))
         (nd, lv\<lparr>clock_reads := Suc (clock_reads lv), report_end := clock ext (clock_reads lv)\<rparr>)"
  by (simp add: report_section_def now_def Let_def)

lemma report_section_idle:
  "\<not> kServerReportThreshold \<le> as_seconds (clock ext (clock_reads lv) - report_start lv) \<Longrightarrow>
     report_section ext tier self mip ts (nd, lv) =
       (nd, lv\<lparr>clock_reads := Suc (clock_reads lv), report_end := clock ext (clock_reads lv)\<rparr>)"
  by (simp add: report_section_def now_def Let_def)

lemma send_report_skip:
  "fst (get_responsible_threads_metadata ext key (others nd)) = [] \<Longrightarrow>
     send_report ext key req nd =
       nd\<lparr>others := snd (get_responsible_threads_metadata ext key (others nd))\<rparr>"
  by (simp add: send_report_def Let_def split_beta)

lemma send_report_sent:
  assumes "fst (get_responsible_threads_metadata ext key (others nd)) \<noteq> []"
  shows "\<exists>t \<in> set (fst (get_responsible_threads_metadata ext key (others nd))).
           outbox (send_report ext key req nd) =
             outbox nd @ [(key_request_connect_address ext t, RequestMsg req)]"
proof -
  define threads where "threads = fst (get_responsible_threads_metadata ext key (others nd))"
  define i where "i = fst (rand_r ext (seed nd)) mod length threads"
  have "i < length threads" using assms by (simp add: i_def threads_def)
  then have "threads ! i \<in> set threads" by simp
  moreover have "outbox (send_report ext key req nd) =
      outbox nd @ [(key_request_connect_address ext (threads ! i), RequestMsg req)]"
    using assms by (simp add: send_report_def Let_def split_beta i_def threads_def)
  ultimately show ?thesis unfolding threads_def by blast
qed

lemma send_report_frame:
  "stored_key_map (send_report ext key req nd) = stored_key_map nd"
  "key_access_tracker (send_report ext key req nd) = key_access_tracker nd"
  "access_count (send_report ext key req nd) = access_count nd"
  "logged (send_report ext key req nd) = logged nd"
  "join_gossip_map (send_report ext key req nd) = join_gossip_map nd"
  "join_remove_set (send_report ext key req nd) = join_remove_set nd"
  "serializers (send_report ext key req nd) = serializers nd"
  "local_changeset (send_report ext key req nd) = local_changeset nd"
  "key_to_cache_ips (send_report ext key req nd) = key_to_cache_ips nd"
  by (simp_all add: send_report_def Let_def split_beta)

lemma send_report_outbox_grows:
  "\<exists>xs. outbox (send_report ext key req nd) = outbox nd @ xs"
  by (simp add: send_report_def Let_def split_beta)

lemma total_consumption_sum:
  "total_consumption skm = sum_list (map (\<lambda>p. ucast (prop_size (snd p))) skm)"
proof -
  have "fold (\<lambda>key_pair consumption. consumption + ucast (prop_size (snd key_pair))) skm c
          = c + sum_list (map (\<lambda>p. ucast (prop_size (snd p))) skm)" for c :: "64 word"
    by (induction skm arbitrary: c) (simp_all add: add.assoc)
  then show ?thesis by (simp add: total_consumption_def)
qed

text \<open>
  With fewer than \<open>2^32\<close> stored keys the 64-bit sum cannot wrap, and the reported
  consumption is the exact sum of the sizes, in whole thousands of bytes.
\<close>

lemma unat_sum_list_exact:
  fixes f :: "'a \<Rightarrow> 64 word"
  shows "sum_list (map (\<lambda>x. unat (f x)) xs) < 2 ^ 64 \<Longrightarrow>
     unat (sum_list (map f xs)) = sum_list (map (\<lambda>x. unat (f x)) xs)"
proof (induction xs)
  case Nil
  then show ?case by simp
next
  case (Cons x xs)
  have small: "sum_list (map (\<lambda>x. unat (f x)) xs) < 2 ^ 64" using Cons.prems by simp
  have ih: "unat (sum_list (map f xs)) = sum_list (map (\<lambda>x. unat (f x)) xs)"
    by (rule Cons.IH [OF small])
  have "unat (f x) + unat (sum_list (map f xs)) < 2 ^ LENGTH(64)"
    using Cons.prems ih by simp
  then have "unat (f x + sum_list (map f xs)) = unat (f x) + unat (sum_list (map f xs))"
    by (rule unat_add_lem [THEN iffD1])
  then show ?case using ih by simp
qed

lemma unat_ucast_32_64: "unat (ucast (w :: 32 word) :: 64 word) = unat w"
proof -
  have "unat w < 2 ^ 32" using unsigned_less [of w] by simp
  then have "unat w < 2 ^ 64" by simp
  then show ?thesis by (simp add: unsigned_ucast_eq take_bit_nat_eq_self)
qed

lemma sizes_bounded:
  "sum_list (map (\<lambda>p. unat (ucast (prop_size (snd p)) :: 64 word)) skm) \<le> length skm * 2 ^ 32"
proof (induction skm)
  case Nil
  then show ?case by simp
next
  case (Cons p skm)
  have "unat (ucast (prop_size (snd p)) :: 64 word) = unat (prop_size (snd p))"
    by (rule unat_ucast_32_64)
  moreover have "unat (prop_size (snd p)) < 2 ^ 32"
    using unsigned_less [of "prop_size (snd p)"] by simp
  ultimately show ?case using Cons.IH by simp
qed

lemma total_consumption_exact:
  assumes "length skm < 2 ^ 32"
  shows "unat (total_consumption skm div 1000) =
           sum_list (map (\<lambda>p. unat (prop_size (snd p))) skm) div 1000"
proof -
  have "length skm * 2 ^ 32 < (2 ^ 32 :: nat) * 2 ^ 32" using assms by simp
  then have "sum_list (map (\<lambda>p. unat (ucast (prop_size (snd p)) :: 64 word)) skm) < 2 ^ 64"
    using sizes_bounded [of skm] by simp
  then have "unat (sum_list (map (\<lambda>p. ucast (prop_size (snd p)) :: 64 word) skm)) =
        sum_list (map (\<lambda>p. unat (ucast (prop_size (snd p)) :: 64 word)) skm)"
    by (rule unat_sum_list_exact)
  moreover have "(\<lambda>p. unat (ucast (prop_size (snd p)) :: 64 word)) =
        (\<lambda>p :: Key \<times> KeyProperty. unat (prop_size (snd p)))"
    by (simp add: unat_ucast_32_64)
  ultimately show ?thesis
    by (simp add: total_consumption_sum unat_div)
qed

lemma report_epoch:
  "epoch (snd (report ext tier self mip ts duration (nd, lv))) = epoch lv + 1"
  by (simp add: report_def Let_def split_beta now_def)

lemma report_tracker:
  "key_access_tracker (fst (report ext tier self mip ts duration (nd, lv))) = key_access_tracker nd"
  by (simp add: report_def Let_def split_beta send_report_frame)

lemma report_first_message:
  fixes ext :: "('v, 'd, 'h) externals"
  assumes "fst (get_responsible_threads_metadata ext
                  (get_metadata_key ext self tier (tid self) server_stats) (others nd)) \<noteq> []"
  shows "\<exists>t \<in> set (fst (get_responsible_threads_metadata ext
                  (get_metadata_key ext self tier (tid self) server_stats) (others nd))).
         \<exists>rest.
           outbox (fst (report ext tier self mip ts duration (nd, lv))) =
             outbox nd @
             (key_request_connect_address ext t,
              RequestMsg
                \<lparr>request_type = PUT,
                 request_tuples =
                   [\<lparr>tuple_key = get_metadata_key ext self tier (tid self) server_stats,
                     tuple_lattice_type = LWW,
                     tuple_timestamp = ts,
                     tuple_body =
                       Statistics
                         \<lparr>stat_storage_consumption =
                            sum_list (map (\<lambda>p. ucast (prop_size (snd p))) (stored_key_map nd))
                              div 1000,
                          stat_occupancy =
                            d_div ext (d_of_int ext (uint (working_time lv)))
                              (d_mul ext (d_of_int ext duration) (d_of_int ext 1000000)),
                          stat_epoch = epoch lv + 1,
                          stat_access_count = access_count nd\<rparr>\<rparr>]\<rparr>) # rest"
proof -
  define key1 where "key1 = get_metadata_key ext self tier (tid self) server_stats"
  define lv1 where "lv1 = lv\<lparr>epoch := epoch lv + 1\<rparr>"
  define nd1 where "nd1 = nd\<lparr>logged :=
                  log_event_occupancy ext duration (working_time_map lv1) 0 (logged nd)\<rparr>"
  define occupancy where "occupancy = occupancy_of ext (working_time lv1) duration"
  define nd2 where "nd2 = (if d_gt ext occupancy (d_0_02 ext)
                 then nd1\<lparr>logged := logged nd1 @ [InfoOccupancy occupancy]\<rparr> else nd1)"
  define req1 where "req1 = put_request key1 ts
       (Statistics (server_statistics ext duration (epoch lv1) (working_time lv1) nd2))"
  define nd3 where "nd3 = send_report ext key1 req1 nd2"
  define lv2 where "lv2 = snd (now ext lv1)"
  define key2 where "key2 = get_metadata_key ext self tier (tid self) key_access"
  define req2 :: "'d KeyRequest" where "req2 = put_request key2 ts
       (KeyAccessData (key_access_counts (fst (now ext lv1)) (key_access_tracker nd3)))"
  define nd4 where "nd4 = send_report ext key2 req2 nd3"
  define key3 where "key3 = get_metadata_key ext self tier (tid self) key_size"
  define req3 :: "'d KeyRequest" where "req3 = put_request key3 ts
       (KeySizeData (primary_key_size ext (others nd4) self (stored_key_map nd4)))"
  define nd5 where "nd5 = send_report ext key3 req3 nd4"
  define nd6 where "nd6 = (if mip \<noteq> ''NULL''
                 then nd5\<lparr>outbox := outbox nd5 @
                        [(get_func_nodes_req_address ext mip,
                          StringMsg (management_node_response_connect_address ext self))]\<rparr>
                 else nd5)"
  have fin: "fst (report ext tier self mip ts duration (nd, lv)) = nd6\<lparr>access_count := 0\<rparr>"
    by (simp add: report_def Let_def split_beta nd6_def nd5_def req3_def key3_def nd4_def
        req2_def key2_def nd3_def req1_def nd2_def occupancy_def nd1_def lv1_def key1_def)
  have same: "others nd2 = others nd" "outbox nd2 = outbox nd"
    "stored_key_map nd2 = stored_key_map nd" "access_count nd2 = access_count nd"
    by (simp_all add: nd2_def nd1_def)
  have "fst (get_responsible_threads_metadata ext key1 (others nd2)) \<noteq> []"
    using assms same by (simp add: key1_def)
  from send_report_sent [OF this, of req1] obtain t where
    t: "t \<in> set (fst (get_responsible_threads_metadata ext key1 (others nd)))"
    and o3: "outbox nd3 = outbox nd @ [(key_request_connect_address ext t, RequestMsg req1)]"
    using same by (auto simp: nd3_def)
  obtain xs4 where o4: "outbox nd4 = outbox nd3 @ xs4"
    using send_report_outbox_grows [of ext key2 req2 nd3] by (auto simp: nd4_def)
  obtain xs5 where o5: "outbox nd5 = outbox nd4 @ xs5"
    using send_report_outbox_grows [of ext key3 req3 nd4] by (auto simp: nd5_def)
  obtain xs6 where o6: "outbox nd6 = outbox nd5 @ xs6"
    by (cases "mip = ''NULL''") (simp_all add: nd6_def)
  have req: "req1 = \<lparr>request_type = PUT,
                 request_tuples =
                   [\<lparr>tuple_key = key1, tuple_lattice_type = LWW, tuple_timestamp = ts,
                     tuple_body =
                       Statistics
                         \<lparr>stat_storage_consumption =
                            sum_list (map (\<lambda>p. ucast (prop_size (snd p))) (stored_key_map nd))
                              div 1000,
                          stat_occupancy =
                            d_div ext (d_of_int ext (uint (working_time lv)))
                              (d_mul ext (d_of_int ext duration) (d_of_int ext 1000000)),
                          stat_epoch = epoch lv + 1,
                          stat_access_count = access_count nd\<rparr>\<rparr>]\<rparr>"
    by (simp add: req1_def put_request_def server_statistics_def total_consumption_sum
        occupancy_of_def lv1_def same)
  have "outbox (fst (report ext tier self mip ts duration (nd, lv))) =
          outbox nd @ (key_request_connect_address ext t, RequestMsg req1) # (xs4 @ xs5 @ xs6)"
    using fin o3 o4 o5 o6 by simp
  then show ?thesis using t unfolding req key1_def by blast
qed

lemma report_nothing_sent:
  assumes "\<And>k h. fst (get_responsible_threads_metadata ext k h) = []"
  shows "outbox (fst (report ext tier self ''NULL'' ts duration (nd, lv))) = outbox nd \<and>
         seed (fst (report ext tier self ''NULL'' ts duration (nd, lv))) = seed nd"
  by (simp add: report_def Let_def split_beta send_report_def assms)

lemma primary_key_size_filter:
  "primary_key_size ext h self skm =
     map (\<lambda>p. (fst p, prop_size (snd p)))
       (filter (\<lambda>p. is_primary_replica ext h self (fst p)) skm)"
  by (induction skm) simp_all

lemma is_primary_replica_first:
  "is_primary_replica ext h self key =
     (\<exists>t ts. responsible_list ext h key = t # ts \<and> thread_eq ext t self)"
  by (simp add: is_primary_replica_def split: list.splits)

text \<open>
  C10.  A report is pushed only when the set of responsible metadata threads of its key
  is not empty, and then to one of these threads.  When the set is empty, sending is
  skipped: the outbox, the log, the seed and every other variable of the thread stay as
  they are (only the rings may have been touched by the lookup itself).  A report tick
  at which no metadata key has a responsible thread sends nothing.
\<close>

theorem report_needs_metadata_threads:
  "(fst (get_responsible_threads_metadata ext key (others nd)) = [] \<longrightarrow>
      send_report ext key req nd =
        nd\<lparr>others := snd (get_responsible_threads_metadata ext key (others nd))\<rparr>) \<and>
   (fst (get_responsible_threads_metadata ext key (others nd)) \<noteq> [] \<longrightarrow>
      (\<exists>t \<in> set (fst (get_responsible_threads_metadata ext key (others nd))).
         outbox (send_report ext key req nd) =
           outbox nd @ [(key_request_connect_address ext t, RequestMsg req)])) \<and>
   ((\<forall>k h. fst (get_responsible_threads_metadata ext k h) = []) \<longrightarrow>
      outbox (fst (report ext tier self ''NULL'' ts duration (nd, lv))) = outbox nd \<and>
      seed (fst (report ext tier self ''NULL'' ts duration (nd, lv))) = seed nd)"
  using send_report_skip [of ext key nd req] send_report_sent [of ext key nd req]
    report_nothing_sent [of ext tier self ts duration nd lv]
  by blast

text \<open>The theorem without and with a metadata thread.\<close>

theorem report_needs_metadata_threads_witness:
  "fst (get_responsible_threads_metadata (demo_externals []) ''stats'' (others demo_node)) = [] \<and>
   send_report (demo_externals []) ''stats'' (put_request ''stats'' 7 (KeySizeData [])) demo_node
     = demo_node \<and>
   fst (get_responsible_threads_metadata (demo_externals [demo_peer]) ''stats'' (others demo_node))
     \<noteq> [] \<and>
   outbox (send_report (demo_externals [demo_peer]) ''stats''
             (put_request ''stats'' 7 (KeySizeData [])) demo_node) =
     [(''10.0.0.2:request'', RequestMsg (put_request ''stats'' 7 (KeySizeData [])))] \<and>
   (\<forall>k h. fst (get_responsible_threads_metadata (demo_externals []) k h) = []) \<and>
   outbox (fst (report (demo_externals []) MEMORY demo_thread ''NULL'' 7 100 (demo_node, demo_vars)))
     = []"
proof -
  have e: "fst (get_responsible_threads_metadata (demo_externals []) ''stats'' (others demo_node)) = []"
    by (simp add: demo_defs)
  have ne: "fst (get_responsible_threads_metadata (demo_externals [demo_peer]) ''stats''
                   (others demo_node)) \<noteq> []"
    by (simp add: demo_defs)
  have all: "\<forall>k h. fst (get_responsible_threads_metadata (demo_externals []) k h) = []"
    by (simp add: demo_defs)
  note t1 = report_needs_metadata_threads [of "demo_externals []" "''stats''" demo_node
      "put_request ''stats'' 7 (KeySizeData [])" MEMORY demo_thread 7 100 demo_vars]
  note t2 = report_needs_metadata_threads [of "demo_externals [demo_peer]" "''stats''" demo_node
      "put_request ''stats'' 7 (KeySizeData [])" MEMORY demo_thread 7 100 demo_vars]
  have a: "send_report (demo_externals []) ''stats'' (put_request ''stats'' 7 (KeySizeData []))
             demo_node = demo_node"
    using t1 e by (simp add: demo_defs)
  have b: "outbox (send_report (demo_externals [demo_peer]) ''stats''
             (put_request ''stats'' 7 (KeySizeData [])) demo_node) =
     [(''10.0.0.2:request'', RequestMsg (put_request ''stats'' 7 (KeySizeData [])))]"
    using t2 ne by (auto simp: demo_defs)
  have c: "outbox (fst (report (demo_externals []) MEMORY demo_thread ''NULL'' 7 100
             (demo_node, demo_vars))) = []"
    using t1 all by (simp add: demo_node_def)
  show ?thesis by (intro conjI e a ne b all c)
qed

text \<open>
  C6, as amended.  A report tick increases \<^verbatim>\<open>epoch\<close> by one.  When the
  \<^verbatim>\<open>server_stats\<close> metadata key of this tier and thread has a responsible metadata
  thread, the first message of the tick goes to one of them: a \<^verbatim>\<open>PUT\<close> request with
  one last-writer-wins tuple under that key, whose body reports the 64-bit sum of the
  stored sizes divided by 1000, the working time over the length of the interval, the
  new epoch and the current access count.
\<close>

theorem server_stats_report:
  fixes ext :: "('v, 'd, 'h) externals"
  shows
  "epoch (snd (report ext tier self mip ts duration (nd, lv))) = epoch lv + 1 \<and>
   (fst (get_responsible_threads_metadata ext
           (get_metadata_key ext self tier (tid self) server_stats) (others nd)) \<noteq> [] \<longrightarrow>
      (\<exists>t \<in> set (fst (get_responsible_threads_metadata ext
                        (get_metadata_key ext self tier (tid self) server_stats) (others nd))).
       \<exists>rest.
         outbox (fst (report ext tier self mip ts duration (nd, lv))) =
           outbox nd @
           (key_request_connect_address ext t,
            RequestMsg
              \<lparr>request_type = PUT,
               request_tuples =
                 [\<lparr>tuple_key = get_metadata_key ext self tier (tid self) server_stats,
                   tuple_lattice_type = LWW,
                   tuple_timestamp = ts,
                   tuple_body =
                     Statistics
                       \<lparr>stat_storage_consumption =
                          sum_list (map (\<lambda>p. ucast (prop_size (snd p))) (stored_key_map nd))
                            div 1000,
                        stat_occupancy =
                          d_div ext (d_of_int ext (uint (working_time lv)))
                            (d_mul ext (d_of_int ext duration) (d_of_int ext 1000000)),
                        stat_epoch = epoch lv + 1,
                        stat_access_count = access_count nd\<rparr>\<rparr>]\<rparr>) # rest))"
  using report_epoch [of ext tier self mip ts duration nd lv]
    report_first_message [of ext self tier nd mip ts duration lv]
  by blast

text \<open>The theorem on \<open>demo_node\<close>: 7000 bytes are 7 KB, three of a hundred seconds were worked.\<close>

theorem server_stats_report_witness:
  "epoch (snd (report (demo_externals [demo_peer]) MEMORY demo_thread ''NULL'' 7 100
                 (demo_node, demo_vars))) = 7 \<and>
   fst (get_responsible_threads_metadata (demo_externals [demo_peer])
          (get_metadata_key (demo_externals [demo_peer]) demo_thread MEMORY (tid demo_thread)
             server_stats) (others demo_node)) \<noteq> [] \<and>
   (\<exists>rest.
      outbox (fst (report (demo_externals [demo_peer]) MEMORY demo_thread ''NULL'' 7 100
                     (demo_node, demo_vars))) =
        (''10.0.0.2:request'',
         RequestMsg
           \<lparr>request_type = PUT,
            request_tuples =
              [\<lparr>tuple_key = ''stats'', tuple_lattice_type = LWW, tuple_timestamp = 7,
                tuple_body =
                  Statistics
                    \<lparr>stat_storage_consumption = 7, stat_occupancy = 3 / 100,
                     stat_epoch = 7, stat_access_count = 5\<rparr>\<rparr>]\<rparr>) # rest)"
proof -
  have ne: "fst (get_responsible_threads_metadata (demo_externals [demo_peer])
          (get_metadata_key (demo_externals [demo_peer]) demo_thread MEMORY (tid demo_thread)
             server_stats) (others demo_node)) \<noteq> []"
    by (simp add: demo_defs)
  note th = server_stats_report [of "demo_externals [demo_peer]" MEMORY demo_thread "''NULL''"
      7 100 demo_node demo_vars]
  have e: "epoch (snd (report (demo_externals [demo_peer]) MEMORY demo_thread ''NULL'' 7 100
                 (demo_node, demo_vars))) = 7"
    using th by (simp add: demo_vars_def)
  from th ne obtain t rest where
    "t \<in> set (fst (get_responsible_threads_metadata (demo_externals [demo_peer])
          (get_metadata_key (demo_externals [demo_peer]) demo_thread MEMORY (tid demo_thread)
             server_stats) (others demo_node)))"
    and o: "outbox (fst (report (demo_externals [demo_peer]) MEMORY demo_thread ''NULL'' 7 100
                     (demo_node, demo_vars))) =
           outbox demo_node @
           (key_request_connect_address (demo_externals [demo_peer]) t,
            RequestMsg
              \<lparr>request_type = PUT,
               request_tuples =
                 [\<lparr>tuple_key = get_metadata_key (demo_externals [demo_peer]) demo_thread MEMORY
                                 (tid demo_thread) server_stats,
                   tuple_lattice_type = LWW,
                   tuple_timestamp = 7,
                   tuple_body =
                     Statistics
                       \<lparr>stat_storage_consumption =
                          sum_list (map (\<lambda>p. ucast (prop_size (snd p))) (stored_key_map demo_node))
                            div 1000,
                        stat_occupancy =
                          d_div (demo_externals [demo_peer])
                            (d_of_int (demo_externals [demo_peer]) (uint (working_time demo_vars)))
                            (d_mul (demo_externals [demo_peer])
                               (d_of_int (demo_externals [demo_peer]) 100)
                               (d_of_int (demo_externals [demo_peer]) 1000000)),
                        stat_epoch = epoch demo_vars + 1,
                        stat_access_count = access_count demo_node\<rparr>\<rparr>]\<rparr>) # rest"
    by blast
  then have "t = demo_peer" by (simp add: demo_defs)
  then have "outbox (fst (report (demo_externals [demo_peer]) MEMORY demo_thread ''NULL'' 7 100
                     (demo_node, demo_vars))) =
        (''10.0.0.2:request'',
         RequestMsg
           \<lparr>request_type = PUT,
            request_tuples =
              [\<lparr>tuple_key = ''stats'', tuple_lattice_type = LWW, tuple_timestamp = 7,
                tuple_body =
                  Statistics
                    \<lparr>stat_storage_consumption = 7, stat_occupancy = 3 / 100,
                     stat_epoch = 7, stat_access_count = 5\<rparr>\<rparr>]\<rparr>) # rest"
    using o by (simp add: demo_defs)
  then show ?thesis using e ne by blast
qed

text \<open>
  Against C6 as stated: a report tick at which the key has no responsible metadata
  thread puts nothing.
\<close>

theorem server_stats_not_sent_counterexample:
  "kServerReportThreshold \<le> as_seconds (clock (demo_externals []) 0 - report_start demo_vars) \<and>
   outbox (fst (report_section (demo_externals []) MEMORY demo_thread ''NULL'' 7
                  (demo_node, demo_vars))) = []"
  by (simp add: demo_defs eval_defs)

text \<open>
  C7.  The key-size report holds, in the order of \<^verbatim>\<open>stored_key_map\<close>, exactly the
  stored keys of which the thread is the primary replica, each with its stored size;
  the thread is the primary replica of a key when it is the first of the key's
  responsible list.
\<close>

theorem key_size_report_primary_only:
  "primary_key_size ext h self skm =
     map (\<lambda>p. (fst p, prop_size (snd p)))
       (filter (\<lambda>p. is_primary_replica ext h self (fst p)) skm) \<and>
   is_primary_replica ext h self key =
     (\<exists>t ts. responsible_list ext h key = t # ts \<and> thread_eq ext t self)"
  using primary_key_size_filter [of ext h self skm] is_primary_replica_first [of ext h self key]
  by blast

lemma garbage_collect_one:
  "garbage_collect current_time todo access_times = access_times \<or>
   (\<exists>v. garbage_collect current_time todo access_times = set_erase v access_times)"
  by (induction todo) auto

text \<open>
  The garbage collection drops at most one timestamp value: of two different
  timestamps of a key, one is still counted, however old both are.
\<close>

lemma garbage_collect_keeps_one:
  assumes "t1 \<in> set access_times" and "t2 \<in> set access_times" and "t1 \<noteq> t2"
  shows "t1 \<in> set (garbage_collect current_time todo access_times) \<or>
         t2 \<in> set (garbage_collect current_time todo access_times)"
  using garbage_collect_one [of current_time todo access_times] assms
  by (auto simp: set_erase_def)

text \<open>
  C1, on \<open>demo_node\<close> at a report tick at 100 s: the two accesses of \<open>k1\<close>, at 0 s and
  at 1 s, are both older than the monitoring window, yet the count reported for \<open>k1\<close>
  is 1, and the tracker holds both entries after the tick.
\<close>

theorem key_access_not_collected:
  "kKeyMonitoringThreshold \<le> as_seconds (100000000000 - 0) \<and>
   kKeyMonitoringThreshold \<le> as_seconds (100000000000 - 1000000000) \<and>
   key_access_counts 100000000000 [(''k1'', [0, 1000000000])] = [(''k1'', 1)] \<and>
   key_access_tracker demo_node = [(''k1'', [0, 1000000000])] \<and>
   key_access_tracker
     (fst (report_section (demo_externals [demo_peer]) MEMORY demo_thread ''NULL'' 7
             (demo_node, demo_vars))) = [(''k1'', [0, 1000000000])] \<and>
   outbox (fst (report_section (demo_externals [demo_peer]) MEMORY demo_thread ''NULL'' 7
             (demo_node, demo_vars))) ! 1 =
     (''10.0.0.2:request'', RequestMsg (put_request ''access'' 7 (KeyAccessData [(''k1'', 1)])))"
  by (simp add: demo_defs eval_defs)

section \<open>Properties of the loop\<close>

lemma iteration_returns:
  "returns (iteration ext a inp st) = (self_depart_msg inp \<noteq> None)"
  by (auto simp: iteration_def returns_def Let_def split: option.splits sum.splits)

lemma run_loop_returns:
  "returns (run_loop ext a inps st) \<Longrightarrow> \<exists>i \<in> set inps. self_depart_msg i \<noteq> None"
proof (induction inps arbitrary: st)
  case Nil
  then show ?case by (simp add: returns_def)
next
  case (Cons inp inps)
  show ?case
  proof (cases "iteration ext a inp st")
    case (Inl h)
    then show ?thesis using Cons.prems by (simp add: returns_def)
  next
    case (Inr s)
    show ?thesis
    proof (cases s)
      case (Continue st')
      then have "returns (run_loop ext a inps st')" using Cons.prems Inr by simp
      then show ?thesis using Cons.IH by auto
    next
      case (Return st')
      then have "returns (iteration ext a inp st)" using Inr by (simp add: returns_def)
      then show ?thesis by (simp add: iteration_returns)
    qed
  qed
qed

lemma run_loop_running:
  "running (run_loop ext a inps st) \<Longrightarrow> \<forall>i \<in> set inps. self_depart_msg i = None"
proof (induction inps arbitrary: st)
  case Nil
  then show ?case by simp
next
  case (Cons inp inps)
  show ?case
  proof (cases "iteration ext a inp st")
    case (Inl h)
    then show ?thesis using Cons.prems by (simp add: running_def)
  next
    case (Inr s)
    show ?thesis
    proof (cases s)
      case (Continue st')
      then have r: "running (run_loop ext a inps st')" using Cons.prems Inr by simp
      have "\<not> returns (iteration ext a inp st)" using Inr Continue by (simp add: returns_def)
      then have "self_depart_msg inp = None" by (simp add: iteration_returns)
      then show ?thesis using Cons.IH [OF r] by simp
    next
      case (Return st')
      then show ?thesis using Cons.prems Inr by (simp add: running_def)
    qed
  qed
qed

lemma run_loop_next:
  "running (run_loop ext a inps st) \<Longrightarrow> self_depart_msg inp \<noteq> None \<Longrightarrow>
     returns (run_loop ext a (inps @ [inp]) st)"
proof (induction inps arbitrary: st)
  case Nil
  have "returns (iteration ext a inp st)" using Nil.prems(2) by (simp add: iteration_returns)
  then show ?case by (auto simp: returns_def split: sum.splits step.splits)
next
  case (Cons i inps)
  show ?case
  proof (cases "iteration ext a i st")
    case (Inl h)
    then show ?thesis using Cons.prems by (simp add: running_def)
  next
    case (Inr s)
    show ?thesis
    proof (cases s)
      case (Continue st')
      then have r: "running (run_loop ext a inps st')" using Cons.prems Inr by simp
      show ?thesis using Cons.IH [OF r Cons.prems(2)] Inr Continue by simp
    next
      case (Return st')
      then show ?thesis using Cons.prems Inr by (simp add: running_def)
    qed
  qed
qed

text \<open>
  An iteration returns from \<^verbatim>\<open>run\<close> exactly when a message was received on the
  self-depart socket.  So \<^verbatim>\<open>run\<close> has returned after some iterations only if one of
  them received a self-depart message, a loop that is still running has received none,
  and a running loop returns in the iteration that receives one.
\<close>

lemma loop_ends_on_self_depart:
  "(self_depart_msg inp \<noteq> None \<longrightarrow> returns (iteration ext a inp st)) \<and>
   (self_depart_msg inp = None \<longrightarrow> \<not> returns (iteration ext a inp st)) \<and>
   (returns (run_loop ext a inps st) \<longrightarrow> (\<exists>i \<in> set inps. self_depart_msg i \<noteq> None)) \<and>
   (running (run_loop ext a inps st) \<longrightarrow> (\<forall>i \<in> set inps. self_depart_msg i = None)) \<and>
   (running (run_loop ext a inps st) \<and> self_depart_msg inp \<noteq> None \<longrightarrow>
      returns (run_loop ext a (inps @ [inp]) st))"
  using run_loop_returns [of ext a inps st] run_loop_running [of ext a inps st]
    run_loop_next [of ext a inps st inp]
  by (simp add: iteration_returns)

text \<open>The same on an iteration without messages followed by one with a self-depart message.\<close>

lemma loop_ends_on_self_depart_example:
  "self_depart_msg depart_input \<noteq> None \<and>
   returns (iteration (demo_externals []) demo_args depart_input (demo_node, demo_vars)) \<and>
   self_depart_msg idle_input = None \<and>
   \<not> returns (iteration (demo_externals []) demo_args idle_input (demo_node, demo_vars)) \<and>
   running (run_loop (demo_externals []) demo_args [idle_input] (demo_node, demo_vars)) \<and>
   list_all (\<lambda>i. self_depart_msg i = None) [idle_input] \<and>
   returns (run_loop (demo_externals []) demo_args ([idle_input] @ [depart_input])
              (demo_node, demo_vars)) \<and>
   (\<exists>i \<in> set ([idle_input] @ [depart_input]). self_depart_msg i \<noteq> None)"
proof -
  have d: "self_depart_msg depart_input \<noteq> None" by (simp add: demo_defs)
  have i: "self_depart_msg idle_input = None" by (simp add: demo_defs)
  have r: "running (run_loop (demo_externals []) demo_args [idle_input] (demo_node, demo_vars))"
    by (simp add: demo_defs eval_defs running_def)
  note t1 = loop_ends_on_self_depart [of depart_input "demo_externals []" demo_args
      "(demo_node, demo_vars)" "[idle_input]"]
  note t2 = loop_ends_on_self_depart [of idle_input "demo_externals []" demo_args
      "(demo_node, demo_vars)" "[idle_input] @ [depart_input]"]
  have a: "returns (iteration (demo_externals []) demo_args depart_input (demo_node, demo_vars))"
    using t1 d by blast
  have b: "\<not> returns (iteration (demo_externals []) demo_args idle_input (demo_node, demo_vars))"
    using t2 i by blast
  have c: "list_all (\<lambda>i. self_depart_msg i = None) [idle_input]"
    using t1 r by (simp add: list_all_iff)
  have e: "returns (run_loop (demo_externals []) demo_args ([idle_input] @ [depart_input])
              (demo_node, demo_vars))"
    using t1 r d by blast
  have f: "\<exists>i \<in> set ([idle_input] @ [depart_input]). self_depart_msg i \<noteq> None"
    using t2 e by blast
  show ?thesis by (intro conjI d a i b r c e f)
qed

text \<open>
  An iteration without a self-depart message does not always leave the loop running.
  The only other way it can end is the call through a missing serializer in the removal
  loop of the redistribution block.
\<close>

lemma remove_keys_halt:
  "remove_keys dflt ks skm sers = Inl h \<Longrightarrow> h = NullCall"
proof (induction ks arbitrary: skm sers)
  case Nil
  then show ?case by simp
next
  case (Cons key keys)
  then show ?case by (auto simp: Let_def split: option.splits)
qed

lemma redistribute_halt:
  assumes "redistribute T dflt nd = Inl h"
  shows "h = NullCall"
proof -
  obtain m rm where d: "drain_entries T (join_gossip_map nd) [] [] = (m, rm)"
    by (cases "drain_entries T (join_gossip_map nd) [] []")
  from assms d obtain ks skm and sers :: "'a SerializerMap" where
    "remove_keys dflt ks skm sers = Inl h"
    by (auto simp: redistribute_def Let_def split: if_splits sum.splits)
  then show ?thesis by (rule remove_keys_halt)
qed

lemma iteration_outcomes:
  fixes ext :: "('a, 'b, 'c) externals"
  shows "returns (iteration ext a inp st) \<or> running (iteration ext a inp st) \<or>
   iteration ext a inp st = Inl NullCall"
proof (cases "iteration ext a inp st")
  case (Inl h)
  then obtain T dflt and nd :: "('a, 'b, 'c) node" where "redistribute T dflt nd = Inl h"
    by (auto simp: iteration_def Let_def split: option.splits sum.splits)
  then have "h = NullCall" by (rule redistribute_halt)
  then show ?thesis using Inl by simp
next
  case (Inr s)
  then show ?thesis by (cases s) (simp_all add: returns_def running_def)
qed


end
